theory Spec2Isabelle
  imports Complex_Main "HOL-Library.Product_Lexorder"
begin

section \<open>Evaluation and learning-rate utilities of mdistiller (engine/utils.py)\<close>

text \<open>
  A shallow embedding of \<^verbatim>\<open>src/mdistiller/engine/utils.py\<close>. Python numbers
  (learning rates, scores, losses, weights) are modelled as \<^typ>\<open>real\<close>. The arithmetic
  of the functions below is the exact one; where a property depends on the rounding of
  floats, the operations are rounded as Python and the tensors round them (section on
  binary floating point). Python integers that
  are only counted or compared (epoch, batch index, stage thresholds, batch size) are
  \<^typ>\<open>int\<close>. Every exception the code can raise is a value \<open>Inl e\<close> of a sum type.
\<close>

datatype py_error =
    NotImplementedError
  | KeyError
  | ZeroDivisionError
  | IndexError
  | ValueError
  | RuntimeError
  | OSError

subsection \<open>AverageMeter\<close>

text \<open>
  \<^verbatim>\<open>
  class AverageMeter(object):
      def __init__(self): self.reset()
      def reset(self):
          self.val = 0; self.avg = 0; self.sum = 0; self.count = 0
      def update(self, val, n=1):
          self.val = val
          self.sum += val * n
          self.count += n
          self.avg = self.sum / self.count
  \<close>
  The fields \<open>sum\<close> and \<open>count\<close> carry a suffix, \<open>sum\<close> being a constant of HOL.
  Python's division raises ZeroDivisionError when the divisor is zero.
\<close>

record AverageMeter =
  val :: real
  avg :: real
  sum_m :: real
  count_m :: real

definition reset :: AverageMeter where
  "reset = \<lparr>val = 0, avg = 0, sum_m = 0, count_m = 0\<rparr>"

definition update :: "AverageMeter \<Rightarrow> real \<Rightarrow> real \<Rightarrow> py_error + AverageMeter" where
  "update m v n =
     (let s = sum_m m + v * n;
          c = count_m m + n
      in if c = 0 then Inl ZeroDivisionError
         else Inr \<lparr>val = v, avg = s / c, sum_m = s, count_m = c\<rparr>)"

text \<open>A sequence of \<open>update(value, weight)\<close> calls on one meter; the first exception ends it.\<close>

fun updates :: "AverageMeter \<Rightarrow> (real \<times> real) list \<Rightarrow> py_error + AverageMeter" where
  "updates m [] = Inr m"
| "updates m ((v, n) # us) =
     (case update m v n of Inl e \<Rightarrow> Inl e | Inr m' \<Rightarrow> updates m' us)"

subsection \<open>Learning-rate schedule\<close>

text \<open>
  The configuration fields read by \<^verbatim>\<open>adjust_learning_rate\<close>; a field
  \<^verbatim>\<open>cfg.SOLVER.SCHEDULE.MULTISTEP.STAGES\<close> is named by its path.
\<close>

record cfg =
  SOLVER_SCHEDULE_TYPE :: string
  SOLVER_SCHEDULE_MULTISTEP_STAGES :: "int list"
  SOLVER_SCHEDULE_MULTISTEP_RATE :: real
  SOLVER_SCHEDULE_COSINE_WARMUP :: int
  SOLVER_SCHEDULE_COSINE_RATE :: real
  SOLVER_LR :: real
  SOLVER_BATCH_SIZE :: int
  SOLVER_EPOCHS :: int
  DATASET_TYPE :: string

text \<open>
  A parameter group is a dictionary of which the scheduler touches the entry \<open>lr\<close> only;
  the other entries are the extension part of the record.
\<close>

record param_group =
  lr :: real

record 'a optimizer =
  param_groups :: "'a param_group_scheme list"

text \<open>
  \<^verbatim>\<open>for param_group in optimizer.param_groups: param_group["lr"] = new_lr\<close>
\<close>

definition write_lr :: "real \<Rightarrow> 'a optimizer \<Rightarrow> 'a optimizer" where
  "write_lr new_lr optimizer =
     optimizer\<lparr>param_groups := map (\<lambda>g. g\<lparr>lr := new_lr\<rparr>) (param_groups optimizer)\<rparr>"

text \<open>\<^verbatim>\<open>np.sum(epoch > np.asarray(stages))\<close>: how many stages the epoch is strictly beyond.\<close>

definition np_sum_gt :: "int \<Rightarrow> int list \<Rightarrow> nat" where
  "np_sum_gt epoch stages = length (filter (\<lambda>s. epoch > s) stages)"

text \<open>The dictionary literal of the COSINE branch.\<close>

definition dataset_size :: "string \<rightharpoonup> int" where
  "dataset_size = [''imagenet'' \<mapsto> 1281167, ''cifar100'' \<mapsto> 50000]"

text \<open>
  \<^verbatim>\<open>
  def adjust_learning_rate(epoch, bidx, cfg, optimizer):
      match cfg.SOLVER.SCHEDULE.TYPE:
          case 'MULTISTEP':
              if bidx == 0:
                  steps = np.sum(epoch > np.asarray(cfg.SOLVER.SCHEDULE.MULTISTEP.STAGES))
                  if steps > 0:
                      new_lr = cfg.SOLVER.LR * (cfg.SOLVER.SCHEDULE.MULTISTEP.RATE**steps)
                      for param_group in optimizer.param_groups:
                          param_group["lr"] = new_lr
                      return new_lr
                  return cfg.SOLVER.LR
              else:
                  return optimizer.param_groups[0]["lr"]
          case 'COSINE':
              warmup_epochs = cfg.SOLVER.SCHEDULE.COSINE.WARMUP
              num_epoch_batches = int(ceil({'imagenet': 1281167, 'cifar100': 50000,
                  }[cfg.DATASET.TYPE] / cfg.SOLVER.BATCH_SIZE))
              num_warmup_batches = num_epoch_batches * warmup_epochs
              base_lr = cfg.SOLVER.LR
              global_bidx = (epoch - 1) * num_epoch_batches + bidx
              if global_bidx < num_warmup_batches:
                  new_lr = base_lr / num_warmup_batches * (global_bidx + 1)
              else:
                  cos_bidx = global_bidx - num_warmup_batches
                  num_cos_batches = num_epoch_batches * (cfg.SOLVER.EPOCHS - warmup_epochs)
                  last_lr = base_lr * cfg.SOLVER.SCHEDULE.COSINE.RATE
                  new_lr = (np.cos(cos_bidx / num_cos_batches * np.pi) + 1.0) * 0.5
                             * (base_lr - last_lr) + last_lr
              for param_group in optimizer.param_groups:
                  param_group["lr"] = new_lr
              return new_lr
          case _:
              raise NotImplementedError(cfg.SOLVER.SCHEDULE.TYPE)
  \<close>
  The function returns the rate together with the optimizer as it leaves it. The raising
  operations are the dictionary lookup (KeyError), the three divisions (ZeroDivisionError),
  the index \<open>param_groups[0]\<close> (IndexError) and the last case.
\<close>

definition adjust_learning_rate ::
  "int \<Rightarrow> int \<Rightarrow> cfg \<Rightarrow> 'a optimizer \<Rightarrow> py_error + (real \<times> 'a optimizer)" where
  "adjust_learning_rate epoch bidx cfg optimizer =
     (if SOLVER_SCHEDULE_TYPE cfg = ''MULTISTEP'' then
        (if bidx = 0 then
           (let steps = np_sum_gt epoch (SOLVER_SCHEDULE_MULTISTEP_STAGES cfg) in
            if steps > 0 then
              (let new_lr = SOLVER_LR cfg * (SOLVER_SCHEDULE_MULTISTEP_RATE cfg ^ steps)
               in Inr (new_lr, write_lr new_lr optimizer))
            else Inr (SOLVER_LR cfg, optimizer))
         else
           (case param_groups optimizer of
              [] \<Rightarrow> Inl IndexError
            | g # _ \<Rightarrow> Inr (lr g, optimizer)))
      else if SOLVER_SCHEDULE_TYPE cfg = ''COSINE'' then
        (let warmup_epochs = SOLVER_SCHEDULE_COSINE_WARMUP cfg in
         case dataset_size (DATASET_TYPE cfg) of
           None \<Rightarrow> Inl KeyError
         | Some n \<Rightarrow>
             if SOLVER_BATCH_SIZE cfg = 0 then Inl ZeroDivisionError
             else
               (let num_epoch_batches = \<lceil>real_of_int n / real_of_int (SOLVER_BATCH_SIZE cfg)\<rceil>;
                    num_warmup_batches = num_epoch_batches * warmup_epochs;
                    base_lr = SOLVER_LR cfg;
                    global_bidx = (epoch - 1) * num_epoch_batches + bidx
                in
                  if global_bidx < num_warmup_batches then
                    (if num_warmup_batches = 0 then Inl ZeroDivisionError
                     else
                       (let new_lr = base_lr / real_of_int num_warmup_batches
                                       * real_of_int (global_bidx + 1)
                        in Inr (new_lr, write_lr new_lr optimizer)))
                  else
                    (let cos_bidx = global_bidx - num_warmup_batches;
                         num_cos_batches = num_epoch_batches * (SOLVER_EPOCHS cfg - warmup_epochs);
                         last_lr = base_lr * SOLVER_SCHEDULE_COSINE_RATE cfg
                     in
                       if num_cos_batches = 0 then Inl ZeroDivisionError
                       else
                         (let new_lr = (cos (real_of_int cos_bidx / real_of_int num_cos_batches * pi)
                                          + 1) * (1 / 2) * (base_lr - last_lr) + last_lr
                          in Inr (new_lr, write_lr new_lr optimizer)))))
      else Inl NotImplementedError)"

text \<open>
  The scheduler as its caller uses it during one epoch: one call per batch index, in
  order, on the same optimizer. The rates returned are collected; an exception ends the run.
\<close>

fun lr_of_epoch ::
  "int \<Rightarrow> cfg \<Rightarrow> int list \<Rightarrow> 'a optimizer \<Rightarrow> py_error + (real list \<times> 'a optimizer)" where
  "lr_of_epoch epoch cfg [] optimizer = Inr ([], optimizer)"
| "lr_of_epoch epoch cfg (bidx # bidxs) optimizer =
     (case adjust_learning_rate epoch bidx cfg optimizer of
        Inl e \<Rightarrow> Inl e
      | Inr (r, optimizer') \<Rightarrow>
          (case lr_of_epoch epoch cfg bidxs optimizer' of
             Inl e \<Rightarrow> Inl e
           | Inr (rs, optimizer'') \<Rightarrow> Inr (r # rs, optimizer'')))"

text \<open>Concrete configurations used as examples.\<close>

definition cfg_multistep :: cfg where
  "cfg_multistep =
     \<lparr>SOLVER_SCHEDULE_TYPE = ''MULTISTEP'',
      SOLVER_SCHEDULE_MULTISTEP_STAGES = [30, 60, 90],
      SOLVER_SCHEDULE_MULTISTEP_RATE = 1 / 10,
      SOLVER_SCHEDULE_COSINE_WARMUP = 5,
      SOLVER_SCHEDULE_COSINE_RATE = 1 / 100,
      SOLVER_LR = 1 / 10,
      SOLVER_BATCH_SIZE = 64,
      SOLVER_EPOCHS = 100,
      DATASET_TYPE = ''cifar100''\<rparr>"

definition cfg_cosine :: cfg where
  "cfg_cosine = cfg_multistep\<lparr>SOLVER_SCHEDULE_TYPE := ''COSINE''\<rparr>"

definition opt_half :: "unit optimizer" where
  "opt_half = \<lparr>param_groups = [\<lparr>lr = 1 / 2\<rparr>, \<lparr>lr = 1 / 2\<rparr>]\<rparr>"

subsection \<open>Top-k accuracy\<close>

text \<open>
  A two-dimensional tensor of scores: one row per sample, \<open>ncols\<close> scores per row. The
  number of columns is kept beside the rows, a tensor of no rows still having one.
\<close>

record tensor2d =
  ncols :: nat
  rows :: "real list list"

definition rectangular :: "tensor2d \<Rightarrow> bool" where
  "rectangular output = list_all (\<lambda>row. length row = ncols output) (rows output)"

text \<open>
  Modelled from the spec: \<^verbatim>\<open>torch.Tensor.topk\<close> is a routine of the PyTorch library and
  no code of this repository. \<^verbatim>\<open>output.topk(maxk, 1, True, True)\<close> gives, for each row,
  the indices of its \<open>maxk\<close> largest scores, the largest first. Between equal scores the
  lower class index comes first (spec, section 4.2); the library itself fixes no order
  there, and \<open>accuracy_fl\<close> below takes its selection as a parameter. A \<open>maxk\<close> beyond the
  number of classes is an error of the library (RuntimeError).
\<close>

definition topk_row :: "nat \<Rightarrow> real list \<Rightarrow> nat list" where
  "topk_row k row = take k (sort_key (\<lambda>i. (- (row ! i), i)) [0..<length row])"

definition topk_indices :: "tensor2d \<Rightarrow> nat \<Rightarrow> py_error + nat list list" where
  "topk_indices output k =
     (if ncols output < k then Inl RuntimeError
      else Inr (map (topk_row k) (rows output)))"

text \<open>
  \<^verbatim>\<open>pred.t()\<close> for a \<open>pred\<close> of \<open>maxk\<close> columns: row \<open>r\<close> of the result holds, for each
  sample, its class of rank \<open>r\<close>.
\<close>

definition t_pred :: "nat \<Rightarrow> nat list list \<Rightarrow> nat list list" where
  "t_pred maxk pred = map (\<lambda>r. map (\<lambda>p. p ! r) pred) [0..<maxk]"

text \<open>
  \<^verbatim>\<open>target.reshape(1, -1).expand_as(pred)\<close> for a \<open>pred\<close> of shape \<open>[maxk, b]\<close>: the row of
  targets is repeated \<open>maxk\<close> times. The second dimension must agree, unless it is 1, which
  is broadcast; any other mismatch is a RuntimeError.
\<close>

definition expand_as :: "int list \<Rightarrow> nat \<Rightarrow> nat \<Rightarrow> py_error + int list list" where
  "expand_as target maxk b =
     (if length target = b then Inr (replicate maxk target)
      else if length target = 1 then Inr (replicate maxk (replicate b (hd target)))
      else Inl RuntimeError)"

text \<open>\<^verbatim>\<open>pred.eq(...)\<close>, elementwise.\<close>

definition eq_t :: "nat list list \<Rightarrow> int list list \<Rightarrow> bool list list" where
  "eq_t pred target = map2 (\<lambda>ps ts. map2 (\<lambda>p t. int p = t) ps ts) pred target"

text \<open>\<^verbatim>\<open>correct[:k].reshape(-1).float().sum(0, keepdim=True)\<close>\<close>

definition correct_k :: "bool list list \<Rightarrow> nat \<Rightarrow> real" where
  "correct_k correct k = real (length (filter id (concat (take k correct))))"

text \<open>
  \<^verbatim>\<open>
  res = []
  for k in topk:
      correct_k = correct[:k].reshape(-1).float().sum(0, keepdim=True)
      res.append(correct_k.mul_(100.0 / batch_size))
  return res
  \<close>
  \<open>100.0 / batch_size\<close> divides a Python float by a Python integer and raises
  ZeroDivisionError for a batch size of 0.
\<close>

fun accuracy_loop :: "bool list list \<Rightarrow> nat \<Rightarrow> nat list \<Rightarrow> py_error + real list" where
  "accuracy_loop correct batch_size [] = Inr []"
| "accuracy_loop correct batch_size (k # ks) =
     (if batch_size = 0 then Inl ZeroDivisionError
      else
        (case accuracy_loop correct batch_size ks of
           Inl e \<Rightarrow> Inl e
         | Inr res \<Rightarrow> Inr (correct_k correct k * (100 / real batch_size) # res)))"

text \<open>
  \<^verbatim>\<open>
  def accuracy(output, target, topk=(1,)):
      with torch.no_grad():
          maxk = max(topk)
          batch_size = target.size(0)
          _, pred = output.topk(maxk, 1, True, True)
          pred = pred.t()
          correct = pred.eq(target.reshape(1, -1).expand_as(pred))
          res = []
          for k in topk: ...
          return res
  \<close>
  \<open>max\<close> of an empty sequence is a ValueError.
\<close>

definition accuracy :: "tensor2d \<Rightarrow> int list \<Rightarrow> nat list \<Rightarrow> py_error + real list" where
  "accuracy output target topk =
     (if topk = [] then Inl ValueError
      else
        (let maxk = Max (set topk);
             batch_size = length target
         in case topk_indices output maxk of
              Inl e \<Rightarrow> Inl e
            | Inr pred \<Rightarrow>
                (case expand_as target maxk (length pred) of
                   Inl e \<Rightarrow> Inl e
                 | Inr target_e \<Rightarrow>
                     accuracy_loop (eq_t (t_pred maxk pred) target_e) batch_size topk)))"

text \<open>An example batch: three samples, five classes, with a tie in the first row.\<close>

definition output_ex :: tensor2d where
  "output_ex = \<lparr>ncols = 5, rows = [[1, 3, 3, 0, 2], [5, 4, 3, 2, 1], [0, 0, 0, 0, 1]]\<rparr>"

subsection \<open>Log messages\<close>

text \<open>
  \<^verbatim>\<open>
  def log_msg(msg, mode="INFO"):
      color_map = {"INFO": 36, "TRAIN": 32, "EVAL": 31}
      msg = "\033[{}m[{}] {}\033[0m".format(color_map[mode], mode, msg)
      return msg
  \<close>
  A mode that is no key of \<open>color_map\<close> is a KeyError.
\<close>

definition color_map :: "string \<rightharpoonup> nat" where
  "color_map = [''INFO'' \<mapsto> 36, ''TRAIN'' \<mapsto> 32, ''EVAL'' \<mapsto> 31]"

fun str_nat :: "nat \<Rightarrow> string" where
  "str_nat n =
     (if n < 10 then [char_of (48 + n)]
      else str_nat (n div 10) @ [char_of (48 + n mod 10)])"

definition log_msg :: "string \<Rightarrow> string \<Rightarrow> py_error + string" where
  "log_msg msg mode =
     (case color_map mode of
        None \<Rightarrow> Inl KeyError
      | Some c \<Rightarrow>
          Inr ([CHR 0x1B] @ ''['' @ str_nat c @ ''m['' @ mode @ ''] '' @ msg
                 @ [CHR 0x1B] @ ''[0m''))"

subsection \<open>The evaluation loop\<close>

text \<open>
  What \<^verbatim>\<open>validate\<close> is given or calls and this file does not define: the model
  (\<open>distiller\<close>), the all-gather of \<^verbatim>\<open>dist_fn\<close> on targets and on outputs, the
  cross-entropy criterion, the seconds measured by \<^verbatim>\<open>time.time()\<close> in iteration
  \<open>idx\<close>, and the rendering of a number by the format \<^verbatim>\<open>{:.3f}\<close>.
\<close>

record 'img externals =
  distiller :: "'img \<Rightarrow> tensor2d"
  gather_target :: "int list \<Rightarrow> int list"
  gather_output :: "tensor2d \<Rightarrow> tensor2d"
  criterion :: "tensor2d \<Rightarrow> int list \<Rightarrow> real"
  elapsed :: "nat \<Rightarrow> real"
  format_3f :: "real \<Rightarrow> string"

text \<open>The calls made on the progress bar, in order: all that the loop displays.\<close>

datatype tqdm_call = Tqdm nat | Set_description string | Update_bar | Close_bar

record meters =
  batch_time :: AverageMeter
  losses :: AverageMeter
  top1 :: AverageMeter
  top5 :: AverageMeter
  pbar :: "tqdm_call list"

text \<open>
  \<^verbatim>\<open>
  for idx, (image, target) in enumerate(val_loader):
      output = distiller(image=image)
      target_all = dist_fn.gather(target)
      output_all = dist_fn.gather(output)
      loss = criterion(output_all, target_all)
      batch_size = len(target_all)
      acc1, acc5 = accuracy(output_all, target_all, topk=(1, 5))
      losses.update(loss.cpu().detach().numpy().mean(), batch_size)
      top1.update(acc1[0], batch_size)
      top5.update(acc5[0], batch_size)
      batch_time.update(time.time() - start_time)
      start_time = time.time()
      if IS_MASTER:
          msg = "Top-1:{top1.avg:.3f}| Top-5:{top5.avg:.3f}".format(top1=top1, top5=top5)
          pbar.set_description(log_msg(msg, "EVAL"))
          pbar.update()
  \<close>
  Unpacking \<open>acc1, acc5\<close> from a list of another length is a ValueError. The variable
  \<open>image\<close> carries a prime, \<open>image\<close> being a constant of HOL.
\<close>

fun validate_loop ::
  "bool \<Rightarrow> 'img externals \<Rightarrow> nat \<Rightarrow> ('img \<times> int list) list \<Rightarrow> meters \<Rightarrow> py_error + meters" where
  "validate_loop IS_MASTER ext idx [] m = Inr m"
| "validate_loop IS_MASTER ext idx ((image', target) # rest) m =
     (let output = distiller ext image';
          target_all = gather_target ext target;
          output_all = gather_output ext output;
          loss = criterion ext output_all target_all;
          batch_size = length target_all
      in case accuracy output_all target_all [1, 5] of
           Inl e \<Rightarrow> Inl e
         | Inr [acc1, acc5] \<Rightarrow>
             (case update (losses m) loss (real batch_size) of
                Inl e \<Rightarrow> Inl e
              | Inr losses' \<Rightarrow>
             (case update (top1 m) acc1 (real batch_size) of
                Inl e \<Rightarrow> Inl e
              | Inr top1' \<Rightarrow>
             (case update (top5 m) acc5 (real batch_size) of
                Inl e \<Rightarrow> Inl e
              | Inr top5' \<Rightarrow>
             (case update (batch_time m) (elapsed ext idx) 1 of
                Inl e \<Rightarrow> Inl e
              | Inr batch_time' \<Rightarrow>
                  (let m' = m\<lparr>batch_time := batch_time', losses := losses',
                               top1 := top1', top5 := top5'\<rparr>
                   in if IS_MASTER then
                        (case log_msg (''Top-1:'' @ format_3f ext (avg top1') @ ''| Top-5:''
                                         @ format_3f ext (avg top5')) ''EVAL'' of
                           Inl e \<Rightarrow> Inl e
                         | Inr msg \<Rightarrow>
                             validate_loop IS_MASTER ext (idx + 1) rest
                               (m'\<lparr>pbar := pbar m' @ [Set_description msg, Update_bar]\<rparr>))
                      else validate_loop IS_MASTER ext (idx + 1) rest m')))))
         | Inr _ \<Rightarrow> Inl ValueError)"

text \<open>
  \<^verbatim>\<open>
  def validate(val_loader, distiller):
      IS_MASTER = bool(int(os.environ['IS_MASTER_NODE']))
      batch_time, losses, top1, top5 = [AverageMeter() for _ in range(4)]
      num_iter = len(val_loader)
      if IS_MASTER:
          pbar = tqdm(range(num_iter), dynamic_ncols=True)
      ...
      if IS_MASTER:
          pbar.close()
      return top1.avg, top5.avg, losses.avg
  \<close>
  The flag read from the environment is the first argument. The result is the triple
  returned, with the calls made on the progress bar beside it.
\<close>

definition validate ::
  "bool \<Rightarrow> 'img externals \<Rightarrow> ('img \<times> int list) list
     \<Rightarrow> py_error + ((real \<times> real \<times> real) \<times> tqdm_call list)" where
  "validate IS_MASTER ext val_loader =
     (let num_iter = length val_loader;
          m0 = \<lparr>batch_time = reset, losses = reset, top1 = reset, top5 = reset,
                pbar = (if IS_MASTER then [Tqdm num_iter] else [])\<rparr>
      in case validate_loop IS_MASTER ext 0 val_loader m0 of
           Inl e \<Rightarrow> Inl e
         | Inr m \<Rightarrow>
             Inr ((avg (top1 m), avg (top5 m), avg (losses m)),
                  (if IS_MASTER then pbar m @ [Close_bar] else pbar m)))"

text \<open>An example: the images are the score rows themselves, one worker, a constant loss.\<close>

definition ext_ex :: "tensor2d externals" where
  "ext_ex = \<lparr>distiller = (\<lambda>image'. image'), gather_target = (\<lambda>t. t),
             gather_output = (\<lambda>out. out), criterion = (\<lambda>out t. 1 / 2),
             elapsed = (\<lambda>idx. 1), format_3f = (\<lambda>x. ''?'')\<rparr>"

subsection \<open>Checkpoints\<close>

text \<open>
  The file system as far as the two functions use it: the regular files by path, each
  holding one blob, and whether a path can be opened for writing (its directory exists, it
  is no directory, the process may write there).
\<close>

record 'b filesystem =
  files :: "string \<rightharpoonup> 'b"
  can_write :: "string \<Rightarrow> bool"

text \<open>
  The two routines of the PyTorch library the functions call, taken as parameters:
  \<^verbatim>\<open>torch.save(obj, f)\<close>, which serializes or raises, and
  \<^verbatim>\<open>torch.load(f, map_location="cpu", weights_only=False)\<close>, which deserializes into
  host memory or raises.
\<close>

record ('obj, 'b) torch =
  torch_save :: "'obj \<Rightarrow> py_error + 'b"
  torch_load :: "'b \<Rightarrow> py_error + 'obj"

text \<open>
  \<^verbatim>\<open>
  def save_checkpoint(obj, path):
      with open(path, "wb") as f:
          torch.save(obj, f)

  def load_checkpoint(path):
      with open(path, "rb") as f:
          return torch.load(f, map_location="cpu", weights_only=False)
  \<close>
  \<open>open\<close> raises an OSError when the path cannot be opened in the mode asked for. A save
  that returns leaves the serialized blob as the whole content of the file.
\<close>

definition save_checkpoint ::
  "('obj, 'b) torch \<Rightarrow> 'obj \<Rightarrow> string \<Rightarrow> 'b filesystem \<Rightarrow> py_error + 'b filesystem" where
  "save_checkpoint lib obj path fs =
     (if \<not> can_write fs path then Inl OSError
      else
        (case torch_save lib obj of
           Inl e \<Rightarrow> Inl e
         | Inr blob \<Rightarrow> Inr (fs\<lparr>files := (files fs)(path \<mapsto> blob)\<rparr>)))"

definition load_checkpoint ::
  "('obj, 'b) torch \<Rightarrow> string \<Rightarrow> 'b filesystem \<Rightarrow> py_error + 'obj" where
  "load_checkpoint lib path fs =
     (case files fs path of
        None \<Rightarrow> Inl OSError
      | Some blob \<Rightarrow> torch_load lib blob)"

text \<open>An example library whose blobs are the lists of integers saved, reversed.\<close>

definition lib_ex :: "(int list, int list) torch" where
  "lib_ex = \<lparr>torch_save = (\<lambda>obj. Inr (rev obj)), torch_load = (\<lambda>blob. Inr (rev blob))\<rparr>"

definition fs_ex :: "int list filesystem" where
  "fs_ex = \<lparr>files = [''old.pth'' \<mapsto> [7]], can_write = (\<lambda>path. path \<noteq> [])\<rparr>"

subsection \<open>Binary floating point\<close>

text \<open>
  A Python float is an IEEE binary64 number and the accuracies are tensors of binary32
  numbers: the result of every operation on them is the exact result rounded to the nearest
  number of 53 (or 24) significant bits, a tie going to the even significand. \<open>round_to p\<close>
  is that rounding. The exponent is not bounded: overflow and underflow are outside this
  model, and so are infinities and NaN.
\<close>

definition pow2 :: "int \<Rightarrow> real" where
  "pow2 e = (if 0 \<le> e then 2 ^ nat e else 1 / 2 ^ nat (- e))"

definition round_even :: "real \<Rightarrow> int" where
  "round_even x =
     (let f = \<lfloor>x\<rfloor>;
          r = x - of_int f
      in if r < 1 / 2 then f
         else if 1 / 2 < r then f + 1
         else if even f then f else f + 1)"

definition round_to :: "nat \<Rightarrow> real \<Rightarrow> real" where
  "round_to p x =
     (if x = 0 then 0
      else
        (let e = \<lfloor>log 2 \<bar>x\<bar>\<rfloor> - int p + 1
         in of_int (round_even (x / pow2 e)) * pow2 e))"

definition binary64 :: "real \<Rightarrow> real" where
  "binary64 = round_to 53"

definition binary32 :: "real \<Rightarrow> real" where
  "binary32 = round_to 24"



subsection \<open>Top-k accuracy with the library's selection and rounding\<close>

text \<open>
  \<^verbatim>\<open>torch.Tensor.topk\<close> is a routine of the PyTorch library. Here it is a parameter
  \<open>sel\<close>: \<open>sel k row\<close> are the indices that \<^verbatim>\<open>topk(k, 1, True, True)\<close> gives for one
  row. \<open>topk_contract\<close> is what the library promises of them: \<open>k\<close> different indices of
  the row, by falling score, and no score left out is above a selected one. It promises
  nothing about which of two equal scores comes first.
\<close>

definition topk_contract :: "(nat \<Rightarrow> real list \<Rightarrow> nat list) \<Rightarrow> bool" where
  "topk_contract sel =
     (\<forall>k row. k \<le> length row \<longrightarrow>
        length (sel k row) = k \<and> distinct (sel k row) \<and>
        sorted_wrt (\<lambda>i j. row ! j \<le> row ! i) (sel k row) \<and>
        (\<forall>i \<in> set (sel k row). i < length row \<and>
           (\<forall>j < length row. j \<notin> set (sel k row) \<longrightarrow> row ! j \<le> row ! i)))"

definition topk_indices_lib ::
  "(nat \<Rightarrow> real list \<Rightarrow> nat list) \<Rightarrow> tensor2d \<Rightarrow> nat \<Rightarrow> py_error + nat list list" where
  "topk_indices_lib sel output k =
     (if ncols output < k then Inl RuntimeError
      else Inr (map (sel k) (rows output)))"

text \<open>
  The loop of \<^verbatim>\<open>accuracy\<close> with its arithmetic as the tensors have it. \<open>correct_k\<close> is
  a binary32 sum of zeros and ones, exact up to \<open>2 ^ 24\<close>. \<^verbatim>\<open>100.0 / batch_size\<close> is a
  Python float, rounded by \<open>double\<close>; \<^verbatim>\<open>mul_\<close> takes it to the type of the tensor
  (\<open>single\<close>) and rounds the product to that type.
\<close>

fun accuracy_loop_fl ::
  "(real \<Rightarrow> real) \<Rightarrow> (real \<Rightarrow> real) \<Rightarrow> bool list list \<Rightarrow> nat \<Rightarrow> nat list
     \<Rightarrow> py_error + real list" where
  "accuracy_loop_fl single double correct batch_size [] = Inr []"
| "accuracy_loop_fl single double correct batch_size (k # ks) =
     (if batch_size = 0 then Inl ZeroDivisionError
      else
        (case accuracy_loop_fl single double correct batch_size ks of
           Inl e \<Rightarrow> Inl e
         | Inr res \<Rightarrow>
             Inr (single (correct_k correct k * single (double (100 / real batch_size)))
                    # res)))"

text \<open>
  \<^verbatim>\<open>accuracy\<close> (lines 125 to 136) once more, with the selection of the library and the two
  roundings as parameters. With \<open>topk_row\<close> and no rounding it is \<open>accuracy\<close> above; with
  \<open>binary32\<close> and \<open>binary64\<close> it computes as the code does.
\<close>

definition accuracy_fl ::
  "(nat \<Rightarrow> real list \<Rightarrow> nat list) \<Rightarrow> (real \<Rightarrow> real) \<Rightarrow> (real \<Rightarrow> real)
     \<Rightarrow> tensor2d \<Rightarrow> int list \<Rightarrow> nat list \<Rightarrow> py_error + real list" where
  "accuracy_fl sel single double output target topk =
     (if topk = [] then Inl ValueError
      else
        (let maxk = Max (set topk);
             batch_size = length target
         in case topk_indices_lib sel output maxk of
              Inl e \<Rightarrow> Inl e
            | Inr pred \<Rightarrow>
                (case expand_as target maxk (length pred) of
                   Inl e \<Rightarrow> Inl e
                 | Inr target_e \<Rightarrow>
                     accuracy_loop_fl single double (eq_t (t_pred maxk pred) target_e)
                       batch_size topk)))"

text \<open>
  A selection that keeps the library's promise and puts the higher class index first
  among equal scores, where \<open>topk_row\<close> puts the lower.
\<close>

definition topk_row_last :: "nat \<Rightarrow> real list \<Rightarrow> nat list" where
  "topk_row_last k row = take k (sort_key (\<lambda>i. (- (row ! i), - int i)) [0..<length row])"

text \<open>Examples: 45 samples of one class, all of them right; one sample with a tie.\<close>

definition output_45 :: tensor2d where
  "output_45 = \<lparr>ncols = 1, rows = replicate 45 [1]\<rparr>"

definition output_tie :: tensor2d where
  "output_tie = \<lparr>ncols = 5, rows = [[3, 3, 0, 0, 0]]\<rparr>"

subsection \<open>Properties of AverageMeter\<close>

lemma update_fields:
  assumes "update m v n = Inr m'"
  shows "sum_m m' = sum_m m + v * n" and "count_m m' = count_m m + n"
    and "count_m m' \<noteq> 0" and "avg m' = sum_m m' / count_m m'" and "val m' = v"
  using assms by (auto simp: update_def Let_def split: if_splits)

lemma updates_sums:
  "updates m us = Inr m' \<Longrightarrow>
     sum_m m' = sum_m m + (\<Sum>(v, n)\<leftarrow>us. v * n) \<and>
     count_m m' = count_m m + (\<Sum>(v, n)\<leftarrow>us. n)"
proof (induction us arbitrary: m)
  case Nil
  then show ?case by simp
next
  case (Cons u us)
  obtain v n where u: "u = (v, n)" by (cases u)
  from Cons.prems u obtain m1 where
    m1: "update m v n = Inr m1" and rest: "updates m1 us = Inr m'"
    by (auto split: sum.splits)
  from Cons.IH [OF rest] update_fields(1,2) [OF m1] u show ?case
    by simp
qed

lemma updates_avg:
  "updates m us = Inr m' \<Longrightarrow> us \<noteq> [] \<Longrightarrow>
     count_m m' \<noteq> 0 \<and> avg m' = sum_m m' / count_m m'"
proof (induction us arbitrary: m)
  case Nil
  then show ?case by simp
next
  case (Cons u us)
  obtain v n where u: "u = (v, n)" by (cases u)
  from Cons.prems u obtain m1 where
    m1: "update m v n = Inr m1" and rest: "updates m1 us = Inr m'"
    by (auto split: sum.splits)
  show ?case
  proof (cases "us = []")
    case True
    with rest have "m' = m1" by simp
    with update_fields(3,4) [OF m1] show ?thesis by simp
  next
    case False
    from Cons.IH [OF rest False] show ?thesis .
  qed
qed

lemma updates_positive_weights:
  "0 \<le> count_m m \<Longrightarrow> \<forall>(v, n) \<in> set us. 0 < n \<Longrightarrow>
     \<exists>m'. updates m us = Inr m' \<and> 0 \<le> count_m m' \<and> (us \<noteq> [] \<longrightarrow> 0 < count_m m')"
proof (induction us arbitrary: m)
  case Nil
  then show ?case by simp
next
  case (Cons u us)
  obtain v n where u: "u = (v, n)" by (cases u)
  with Cons.prems have n: "0 < n" by simp
  define m1 where "m1 = \<lparr>val = v, avg = (sum_m m + v * n) / (count_m m + n),
    sum_m = sum_m m + v * n, count_m = count_m m + n\<rparr>"
  from n Cons.prems(1) have step: "update m v n = Inr m1"
    by (simp add: update_def Let_def m1_def)
  have pos: "0 < count_m m1"
    using n Cons.prems(1) by (simp add: m1_def)
  from Cons.prems(2) have "\<forall>(v, n) \<in> set us. 0 < n" by simp
  from Cons.IH [OF _ this, of m1] pos obtain m' where
    m': "updates m1 us = Inr m'" "0 \<le> count_m m'" "us \<noteq> [] \<longrightarrow> 0 < count_m m'"
    by auto
  have "0 < count_m m'"
  proof (cases "us = []")
    case True
    with m'(1) pos show ?thesis by simp
  next
    case False
    with m'(3) show ?thesis by simp
  qed
  with m'(1) step u show ?case by simp
qed

text \<open>
  C5. After \<open>reset\<close> and before any update the average is 0. For every sequence of
  \<open>update(value, weight)\<close> calls that runs through, \<open>sum\<close> is the weighted sum of the
  values and \<open>count\<close> the sum of the weights, and whenever \<open>count > 0\<close> afterwards the
  average is \<open>sum / count\<close>; sequences with positive weights always run through.
  Updates \<open>(1, weight 2)\<close> then \<open>(3, weight 2)\<close> give sum 8, count 4, average 2.
\<close>

theorem AverageMeter_avg_is_sum_over_count:
  "avg reset = 0 \<and>
   (updates reset us = Inr m \<longrightarrow>
      sum_m m = (\<Sum>(v, n)\<leftarrow>us. v * n) \<and>
      count_m m = (\<Sum>(v, n)\<leftarrow>us. n) \<and>
      (0 < count_m m \<longrightarrow> avg m = sum_m m / count_m m)) \<and>
   ((\<forall>(v, n) \<in> set us. 0 < n) \<longrightarrow> (\<exists>m'. updates reset us = Inr m')) \<and>
   updates reset [(1, 2), (3, 2)] = Inr \<lparr>val = 3, avg = 2, sum_m = 8, count_m = 4\<rparr>"
proof (intro conjI impI)
  show "avg reset = 0" by (simp add: reset_def)
next
  assume run: "updates reset us = Inr m"
  from updates_sums [OF run] show "sum_m m = (\<Sum>(v, n)\<leftarrow>us. v * n)"
    by (simp add: reset_def)
next
  assume run: "updates reset us = Inr m"
  from updates_sums [OF run] show "count_m m = (\<Sum>(v, n)\<leftarrow>us. n)"
    by (simp add: reset_def)
next
  assume run: "updates reset us = Inr m" and pos: "0 < count_m m"
  have "us \<noteq> []"
  proof
    assume "us = []"
    with run have "m = reset" by simp
    with pos show False by (simp add: reset_def)
  qed
  from updates_avg [OF run this] show "avg m = sum_m m / count_m m" by simp
next
  assume "\<forall>(v, n) \<in> set us. 0 < n"
  from updates_positive_weights [OF _ this, of reset]
  show "\<exists>m'. updates reset us = Inr m'" by (auto simp: reset_def)
next
  show "updates reset [(1, 2), (3, 2)] = Inr \<lparr>val = 3, avg = 2, sum_m = 8, count_m = 4\<rparr>"
    by (simp add: update_def reset_def Let_def)
qed

theorem AverageMeter_avg_is_sum_over_count_witness:
  "updates reset [(1, 2), (3, 2)] = Inr \<lparr>val = 3, avg = 2, sum_m = 8, count_m = 4\<rparr> \<and>
   sum_m \<lparr>val = 3, avg = 2, sum_m = 8, count_m = 4\<rparr> = (\<Sum>(v, n)\<leftarrow>[(1, 2), (3, 2)]. v * n) \<and>
   count_m \<lparr>val = 3, avg = 2, sum_m = 8, count_m = 4\<rparr> = (\<Sum>(v, n)\<leftarrow>[(1, 2), (3, 2)]. n) \<and>
   (0::real) < count_m \<lparr>val = 3, avg = 2, sum_m = 8, count_m = 4\<rparr> \<and>
   avg \<lparr>val = 3, avg = 2, sum_m = 8, count_m = 4\<rparr> =
     sum_m \<lparr>val = 3, avg = 2, sum_m = 8, count_m = 4\<rparr> /
     count_m \<lparr>val = 3, avg = 2, sum_m = 8, count_m = 4\<rparr>"
  using AverageMeter_avg_is_sum_over_count
    [of "[(1, 2), (3, 2)]" "\<lparr>val = 3, avg = 2, sum_m = 8, count_m = 4\<rparr>"]
  by simp

subsection \<open>Properties of the rounding\<close>

lemma pow2_pos: "0 < pow2 e"
  by (simp add: pow2_def)

lemma pow2_powr: "pow2 e = 2 powr real_of_int e"
proof (cases "0 \<le> e")
  case True
  then have "2 powr real_of_int e = 2 powr real (nat e)" by simp
  also have "\<dots> = 2 ^ nat e" by (simp only: powr_realpow zero_less_numeral)
  finally show ?thesis using True by (simp add: pow2_def)
next
  case False
  then have "real_of_int e = - real (nat (- e))" by simp
  then have "2 powr real_of_int e = 1 / 2 powr real (nat (- e))"
    by (simp only: powr_minus_divide)
  also have "\<dots> = 1 / 2 ^ nat (- e)" by (simp only: powr_realpow zero_less_numeral)
  finally show ?thesis using False by (simp add: pow2_def)
qed

lemma pow2_add: "pow2 (a + b) = pow2 a * pow2 b"
  by (simp add: pow2_powr powr_add)

lemma floor_log2_eq:
  assumes "pow2 k \<le> x" and "x < pow2 (k + 1)"
  shows "\<lfloor>log 2 x\<rfloor> = k"
proof -
  from assms(1) pow2_pos [of k] have "0 < x" by simp
  then show ?thesis
    using assms by (simp add: floor_log_eq_powr_iff pow2_powr)
qed

lemma floor_log2_bounds:
  assumes "0 < x"
  shows "pow2 \<lfloor>log 2 x\<rfloor> \<le> x" and "x < pow2 (\<lfloor>log 2 x\<rfloor> + 1)"
  using assms floor_log_eq_powr_iff [of x 2 "\<lfloor>log 2 x\<rfloor>"]
  by (simp_all add: pow2_powr)

lemma round_even_error: "\<bar>real_of_int (round_even x) - x\<bar> \<le> 1 / 2"
  unfolding round_even_def Let_def by (auto; linarith)

lemma round_even_nonneg: "0 \<le> x \<Longrightarrow> 0 \<le> round_even x"
  unfolding round_even_def Let_def by (auto; linarith)

lemma round_to_eval:
  assumes "pow2 k \<le> \<bar>x\<bar>" and "\<bar>x\<bar> < pow2 (k + 1)"
  shows "round_to p x = of_int (round_even (x / pow2 (k - int p + 1))) * pow2 (k - int p + 1)"
proof -
  from assms(1) pow2_pos [of k] have "x \<noteq> 0" by auto
  with floor_log2_eq [OF assms] show ?thesis
    by (simp add: round_to_def Let_def)
qed


lemma round_to_error:
  assumes "0 < p"
  shows "\<bar>round_to p x - x\<bar> \<le> \<bar>x\<bar> / 2 ^ p"
proof (cases "x = 0")
  case True
  then show ?thesis by (simp add: round_to_def)
next
  case False
  define k where "k = \<lfloor>log 2 \<bar>x\<bar>\<rfloor>"
  define e where "e = k - int p + 1"
  define y where "y = x / pow2 e"
  from False have "0 < \<bar>x\<bar>" by simp
  from floor_log2_bounds(1) [OF this] have low: "pow2 k \<le> \<bar>x\<bar>" by (simp add: k_def)
  have x: "x = y * pow2 e" using pow2_pos [of e] by (simp add: y_def)
  have r: "round_to p x = of_int (round_even y) * pow2 e"
    using False by (simp add: round_to_def Let_def k_def e_def y_def)
  have "k = e + (int p - 1)" by (simp add: e_def)
  then have "pow2 k = pow2 e * pow2 (int p - 1)" by (simp only: pow2_add)
  also from assms have "pow2 (int p - 1) = 2 ^ (p - 1)"
    by (simp add: pow2_def nat_diff_distrib')
  finally have k: "pow2 k = pow2 e * 2 ^ (p - 1)" .
  from assms have half: "(2::real) ^ p = 2 * 2 ^ (p - 1)"
    by (cases p) simp_all
  have "round_to p x - x = (of_int (round_even y) - y) * pow2 e"
  proof -
    have "(of_int (round_even y) - y) * pow2 e = of_int (round_even y) * pow2 e - y * pow2 e"
      by (rule left_diff_distrib)
    with r x show ?thesis by simp
  qed
  then have "\<bar>round_to p x - x\<bar> = \<bar>of_int (round_even y) - y\<bar> * pow2 e"
    using pow2_pos [of e] by (simp only: abs_mult abs_of_pos)
  also have "\<dots> \<le> 1 / 2 * pow2 e"
    using round_even_error [of y] pow2_pos [of e] by (intro mult_right_mono) simp_all
  also have "\<dots> = pow2 k / 2 ^ p"
    by (simp add: k half)
  also have "\<dots> \<le> \<bar>x\<bar> / 2 ^ p"
    using low by (simp add: divide_right_mono)
  finally show ?thesis .
qed

lemma round_to_nonneg:
  assumes "0 \<le> x"
  shows "0 \<le> round_to p x"
proof (cases "x = 0")
  case True
  then show ?thesis by (simp add: round_to_def)
next
  case False
  define e where "e = \<lfloor>log 2 \<bar>x\<bar>\<rfloor> - int p + 1"
  from assms pow2_pos [of e] have "0 \<le> x / pow2 e" by simp
  then have "0 \<le> round_even (x / pow2 e)" by (rule round_even_nonneg)
  with pow2_pos [of e] have "0 \<le> real_of_int (round_even (x / pow2 e)) * pow2 e" by simp
  with False show ?thesis by (simp add: round_to_def Let_def e_def)
qed

lemma round_to_upper:
  assumes "0 < p" and "0 \<le> x"
  shows "round_to p x \<le> x * (1 + 1 / 2 ^ p)"
proof -
  from round_to_error [OF assms(1), of x] assms(2) have "round_to p x - x \<le> x / 2 ^ p"
    by simp
  then show ?thesis by (simp add: algebra_simps)
qed

subsection \<open>Properties of the learning-rate schedule\<close>

lemmas example_defs = cfg_cosine_def cfg_multistep_def opt_half_def dataset_size_def
  write_lr_def np_sum_gt_def

lemma write_lr_groups:
  "map lr (param_groups (write_lr r optimizer)) = replicate (length (param_groups optimizer)) r"
  "map param_group.more (param_groups (write_lr r optimizer)) =
     map param_group.more (param_groups optimizer)"
  "length (param_groups (write_lr r optimizer)) = length (param_groups optimizer)"
  by (simp_all add: write_lr_def map_replicate_const o_def)

lemma adjust_learning_rate_Inr_cases:
  assumes "adjust_learning_rate epoch bidx cfg optimizer = Inr (r, optimizer')"
  shows "optimizer' = write_lr r optimizer \<or> optimizer' = optimizer"
  using assms
  by (auto simp: adjust_learning_rate_def Let_def split: if_splits option.splits list.splits)

text \<open>
  C1 (as amended). Whenever a call returns, the returned rate has been written into the
  \<open>lr\<close> entry of every parameter group, and nothing else of a group has changed, in
  these cases: every COSINE call, and every MULTISTEP call with batch index 0 in which the
  epoch is beyond at least one stage. A MULTISTEP call with batch index 0 in which the epoch
  is beyond no stage returns \<open>SOLVER.LR\<close> and leaves the optimizer as it found it.
\<close>

theorem adjust_learning_rate_writes_lr:
  assumes "adjust_learning_rate epoch bidx cfg optimizer = Inr (r, optimizer')"
  shows "((SOLVER_SCHEDULE_TYPE cfg = ''COSINE'' \<or>
           (SOLVER_SCHEDULE_TYPE cfg = ''MULTISTEP'' \<and> bidx = 0 \<and>
            0 < np_sum_gt epoch (SOLVER_SCHEDULE_MULTISTEP_STAGES cfg))) \<longrightarrow>
            map lr (param_groups optimizer') = replicate (length (param_groups optimizer)) r \<and>
            map param_group.more (param_groups optimizer') =
              map param_group.more (param_groups optimizer)) \<and>
         ((SOLVER_SCHEDULE_TYPE cfg = ''MULTISTEP'' \<and> bidx = 0 \<and>
           np_sum_gt epoch (SOLVER_SCHEDULE_MULTISTEP_STAGES cfg) = 0) \<longrightarrow>
            r = SOLVER_LR cfg \<and> optimizer' = optimizer)"
proof (intro conjI impI)
  assume c: "SOLVER_SCHEDULE_TYPE cfg = ''COSINE'' \<or>
           (SOLVER_SCHEDULE_TYPE cfg = ''MULTISTEP'' \<and> bidx = 0 \<and>
            0 < np_sum_gt epoch (SOLVER_SCHEDULE_MULTISTEP_STAGES cfg))"
  with assms have w: "optimizer' = write_lr r optimizer"
    by (auto simp: adjust_learning_rate_def Let_def split: if_splits option.splits)
  show "map lr (param_groups optimizer') = replicate (length (param_groups optimizer)) r"
    by (simp only: w write_lr_groups)
  show "map param_group.more (param_groups optimizer') =
          map param_group.more (param_groups optimizer)"
    by (simp only: w write_lr_groups)
next
  assume c: "SOLVER_SCHEDULE_TYPE cfg = ''MULTISTEP'' \<and> bidx = 0 \<and>
           np_sum_gt epoch (SOLVER_SCHEDULE_MULTISTEP_STAGES cfg) = 0"
  with assms show "r = SOLVER_LR cfg" "optimizer' = optimizer"
    by (auto simp: adjust_learning_rate_def Let_def)
qed

theorem adjust_learning_rate_writes_lr_witness:
  "adjust_learning_rate 45 0 cfg_multistep opt_half =
     Inr (1 / 100, \<lparr>param_groups = [\<lparr>lr = 1 / 100\<rparr>, \<lparr>lr = 1 / 100\<rparr>]\<rparr>) \<and>
   0 < np_sum_gt 45 (SOLVER_SCHEDULE_MULTISTEP_STAGES cfg_multistep) \<and>
   map lr (param_groups \<lparr>param_groups = [\<lparr>lr = 1 / 100\<rparr>, \<lparr>lr = 1 / 100\<rparr>]\<rparr>) =
     replicate (length (param_groups opt_half)) (1 / 100) \<and>
   adjust_learning_rate 1 0 cfg_multistep opt_half = Inr (1 / 10, opt_half) \<and>
   np_sum_gt 1 (SOLVER_SCHEDULE_MULTISTEP_STAGES cfg_multistep) = 0 \<and>
   1 / 10 = SOLVER_LR cfg_multistep"
  using adjust_learning_rate_writes_lr
    [of 45 0 cfg_multistep opt_half "1 / 100"
        "\<lparr>param_groups = [\<lparr>lr = 1 / 100\<rparr>, \<lparr>lr = 1 / 100\<rparr>]\<rparr>"]
    adjust_learning_rate_writes_lr [of 1 0 cfg_multistep opt_half "1 / 10" opt_half]
  by (simp add: adjust_learning_rate_def example_defs Let_def)

text \<open>
  The claim as first stated includes the MULTISTEP call with batch index 0 and no stage
  exceeded: at epoch 1, with stages 30, 60, 90 and an optimizer whose groups hold 0.5, the
  call returns 0.1 and the groups still hold 0.5.
\<close>

theorem adjust_learning_rate_writes_lr_counterexample:
  "SOLVER_SCHEDULE_TYPE cfg_multistep = ''MULTISTEP'' \<and>
   adjust_learning_rate 1 0 cfg_multistep opt_half = Inr (1 / 10, opt_half) \<and>
   map lr (param_groups opt_half) = [1 / 2, 1 / 2] \<and>
   map lr (param_groups opt_half) \<noteq> replicate (length (param_groups opt_half)) (1 / 10)"
  by (simp add: adjust_learning_rate_def example_defs Let_def)

lemma multistep_first_batch:
  assumes "SOLVER_SCHEDULE_TYPE cfg = ''MULTISTEP''"
  shows "adjust_learning_rate epoch 0 cfg optimizer =
           Inr (SOLVER_LR cfg * SOLVER_SCHEDULE_MULTISTEP_RATE cfg
                  ^ np_sum_gt epoch (SOLVER_SCHEDULE_MULTISTEP_STAGES cfg),
                if 0 < np_sum_gt epoch (SOLVER_SCHEDULE_MULTISTEP_STAGES cfg)
                then write_lr (SOLVER_LR cfg * SOLVER_SCHEDULE_MULTISTEP_RATE cfg
                  ^ np_sum_gt epoch (SOLVER_SCHEDULE_MULTISTEP_STAGES cfg)) optimizer
                else optimizer)"
  using assms by (simp add: adjust_learning_rate_def Let_def)

lemma multistep_later_batch:
  assumes "SOLVER_SCHEDULE_TYPE cfg = ''MULTISTEP''" and "bidx \<noteq> 0"
    and "param_groups optimizer \<noteq> []"
  shows "adjust_learning_rate epoch bidx cfg optimizer =
           Inr (lr (hd (param_groups optimizer)), optimizer)"
  using assms by (cases "param_groups optimizer") (simp_all add: adjust_learning_rate_def)

lemma lr_of_epoch_later_batches:
  assumes "SOLVER_SCHEDULE_TYPE cfg = ''MULTISTEP''" and "\<forall>b \<in> set bidxs. b \<noteq> 0"
    and "param_groups optimizer \<noteq> []"
  shows "lr_of_epoch epoch cfg bidxs optimizer =
           Inr (replicate (length bidxs) (lr (hd (param_groups optimizer))), optimizer)"
  using assms(2)
proof (induction bidxs)
  case Nil
  then show ?case by simp
next
  case (Cons b bidxs)
  then have "b \<noteq> 0" and rest: "\<forall>b \<in> set bidxs. b \<noteq> 0" by simp_all
  from multistep_later_batch [OF assms(1) \<open>b \<noteq> 0\<close> assms(3)] Cons.IH [OF rest]
  show ?case by simp
qed

lemma upt_int_from_zero: "map int [0..<Suc n] = 0 # map int [1..<Suc n]"
  by (simp add: upt_conv_Cons del: upt_Suc)

text \<open>
  C2 (as amended). For every MULTISTEP configuration and every epoch, with \<open>s\<close> the number
  of stage thresholds strictly below the epoch: the call with batch index 0 returns
  \<open>SOLVER.LR * RATE ^ s\<close>; a call with any other batch index returns the rate that the first
  parameter group holds. So over the calls of one epoch (batch indices \<open>0, ..., n - 1\<close> in
  order on one optimizer that has a parameter group) every returned rate is
  \<open>SOLVER.LR * RATE ^ s\<close>, provided \<open>s > 0\<close> or the first parameter group holds
  \<open>SOLVER.LR\<close> when the epoch starts. With \<open>SOLVER.LR = 0.1\<close>, stages 30, 60, 90,
  \<open>RATE = 0.1\<close> and epoch 45 the rate is 0.01.
\<close>

theorem multistep_rate_constant_within_epoch:
  assumes "SOLVER_SCHEDULE_TYPE cfg = ''MULTISTEP''"
  shows "map_sum id fst (adjust_learning_rate epoch 0 cfg optimizer) =
           Inr (SOLVER_LR cfg * SOLVER_SCHEDULE_MULTISTEP_RATE cfg
                  ^ np_sum_gt epoch (SOLVER_SCHEDULE_MULTISTEP_STAGES cfg)) \<and>
         (bidx \<noteq> 0 \<and> param_groups optimizer \<noteq> [] \<longrightarrow>
            adjust_learning_rate epoch bidx cfg optimizer =
              Inr (lr (hd (param_groups optimizer)), optimizer)) \<and>
         (param_groups optimizer \<noteq> [] \<and>
          (0 < np_sum_gt epoch (SOLVER_SCHEDULE_MULTISTEP_STAGES cfg) \<or>
           lr (hd (param_groups optimizer)) = SOLVER_LR cfg) \<longrightarrow>
            map_sum id fst (lr_of_epoch epoch cfg (map int [0..<n]) optimizer) =
              Inr (replicate n (SOLVER_LR cfg * SOLVER_SCHEDULE_MULTISTEP_RATE cfg
                     ^ np_sum_gt epoch (SOLVER_SCHEDULE_MULTISTEP_STAGES cfg))))"
proof (intro conjI impI)
  show "map_sum id fst (adjust_learning_rate epoch 0 cfg optimizer) =
           Inr (SOLVER_LR cfg * SOLVER_SCHEDULE_MULTISTEP_RATE cfg
                  ^ np_sum_gt epoch (SOLVER_SCHEDULE_MULTISTEP_STAGES cfg))"
    by (simp add: multistep_first_batch [OF assms])
next
  assume "bidx \<noteq> 0 \<and> param_groups optimizer \<noteq> []"
  then show "adjust_learning_rate epoch bidx cfg optimizer =
              Inr (lr (hd (param_groups optimizer)), optimizer)"
    by (simp add: multistep_later_batch [OF assms])
next
  define s where "s = np_sum_gt epoch (SOLVER_SCHEDULE_MULTISTEP_STAGES cfg)"
  define new_lr where "new_lr = SOLVER_LR cfg * SOLVER_SCHEDULE_MULTISTEP_RATE cfg ^ s"
  define optimizer1 where "optimizer1 = (if 0 < s then write_lr new_lr optimizer else optimizer)"
  assume h: "param_groups optimizer \<noteq> [] \<and>
          (0 < np_sum_gt epoch (SOLVER_SCHEDULE_MULTISTEP_STAGES cfg) \<or>
           lr (hd (param_groups optimizer)) = SOLVER_LR cfg)"
  have first: "adjust_learning_rate epoch 0 cfg optimizer = Inr (new_lr, optimizer1)"
    unfolding new_lr_def optimizer1_def s_def by (rule multistep_first_batch [OF assms])
  from h have ne: "param_groups optimizer1 \<noteq> []"
    by (simp add: optimizer1_def write_lr_def)
  have held: "lr (hd (param_groups optimizer1)) = new_lr"
  proof (cases "0 < s")
    case True
    with h show ?thesis by (simp add: optimizer1_def write_lr_def hd_map)
  next
    case False
    with h show ?thesis by (simp add: optimizer1_def new_lr_def s_def)
  qed
  show "map_sum id fst (lr_of_epoch epoch cfg (map int [0..<n]) optimizer) =
              Inr (replicate n (SOLVER_LR cfg * SOLVER_SCHEDULE_MULTISTEP_RATE cfg
                     ^ np_sum_gt epoch (SOLVER_SCHEDULE_MULTISTEP_STAGES cfg)))"
  proof (cases n)
    case 0
    then show ?thesis by simp
  next
    case (Suc k)
    have later: "\<forall>b \<in> set (map int [1..<Suc k]). b \<noteq> 0" by auto
    from lr_of_epoch_later_batches [OF assms later ne, of epoch] held
    have "lr_of_epoch epoch cfg (map int [1..<Suc k]) optimizer1 =
            Inr (replicate k new_lr, optimizer1)"
      by simp
    with first have "lr_of_epoch epoch cfg (0 # map int [1..<Suc k]) optimizer =
            Inr (new_lr # replicate k new_lr, optimizer1)"
      by simp
    then show ?thesis
      unfolding Suc upt_int_from_zero new_lr_def s_def by simp
  qed
qed

theorem multistep_rate_constant_within_epoch_witness:
  "SOLVER_SCHEDULE_TYPE cfg_multistep = ''MULTISTEP'' \<and>
   map_sum id fst (adjust_learning_rate 45 0 cfg_multistep opt_half) = Inr (1 / 100) \<and>
   (2::int) \<noteq> 0 \<and> param_groups opt_half \<noteq> [] \<and>
   adjust_learning_rate 45 2 cfg_multistep opt_half = Inr (1 / 2, opt_half) \<and>
   0 < np_sum_gt 45 (SOLVER_SCHEDULE_MULTISTEP_STAGES cfg_multistep) \<and>
   map_sum id fst (lr_of_epoch 45 cfg_multistep (map int [0..<3]) opt_half) =
     Inr [1 / 100, 1 / 100, 1 / 100]"
  using multistep_rate_constant_within_epoch [of cfg_multistep 45 opt_half 2 3]
  by (simp add: example_defs numeral_3_eq_3)

text \<open>
  Without the proviso the rate is not constant within an epoch: at epoch 1 (no stage
  exceeded) on an optimizer whose groups hold 0.5, batch index 0 returns 0.1 and batch
  index 1 returns 0.5.
\<close>

theorem multistep_rate_constant_within_epoch_counterexample:
  "SOLVER_SCHEDULE_TYPE cfg_multistep = ''MULTISTEP'' \<and>
   lr_of_epoch 1 cfg_multistep [0, 1] opt_half = Inr ([1 / 10, 1 / 2], opt_half) \<and>
   SOLVER_LR cfg_multistep * SOLVER_SCHEDULE_MULTISTEP_RATE cfg_multistep
     ^ np_sum_gt 1 (SOLVER_SCHEDULE_MULTISTEP_STAGES cfg_multistep) = 1 / 10 \<and>
   (1 / 2 :: real) \<noteq> 1 / 10"
  by (simp add: adjust_learning_rate_def example_defs Let_def)








text \<open>
  C4 (as amended). \<open>adjust_learning_rate\<close> has no handler, so what it raises reaches the
  caller. It raises exactly in these cases: NotImplementedError when the schedule type is
  neither MULTISTEP nor COSINE; KeyError when the type is COSINE and the dataset identifier is
  neither \<open>imagenet\<close> nor \<open>cifar100\<close>; ZeroDivisionError when the type is COSINE, the
  dataset is known and the batch size is 0, or the divisor of the branch taken
  (\<open>num_warmup_batches\<close> during warm-up, \<open>num_cos_batches\<close> after it) is 0; IndexError
  when the type is MULTISTEP, the batch index is not 0 and the optimizer has no parameter
  group. In all other cases it returns.
\<close>

theorem adjust_learning_rate_raises:
  "adjust_learning_rate epoch bidx cfg optimizer = Inl e \<longleftrightarrow>
     (SOLVER_SCHEDULE_TYPE cfg \<noteq> ''MULTISTEP'' \<and> SOLVER_SCHEDULE_TYPE cfg \<noteq> ''COSINE'' \<and>
      e = NotImplementedError) \<or>
     (SOLVER_SCHEDULE_TYPE cfg = ''COSINE'' \<and>
      DATASET_TYPE cfg \<noteq> ''imagenet'' \<and> DATASET_TYPE cfg \<noteq> ''cifar100'' \<and> e = KeyError) \<or>
     (SOLVER_SCHEDULE_TYPE cfg = ''COSINE'' \<and>
      (\<exists>n. dataset_size (DATASET_TYPE cfg) = Some n \<and>
        (SOLVER_BATCH_SIZE cfg = 0 \<or>
         (let num_epoch_batches = \<lceil>real_of_int n / real_of_int (SOLVER_BATCH_SIZE cfg)\<rceil>;
              num_warmup_batches = num_epoch_batches * SOLVER_SCHEDULE_COSINE_WARMUP cfg;
              global_bidx = (epoch - 1) * num_epoch_batches + bidx;
              num_cos_batches = num_epoch_batches
                                  * (SOLVER_EPOCHS cfg - SOLVER_SCHEDULE_COSINE_WARMUP cfg)
          in if global_bidx < num_warmup_batches then num_warmup_batches = 0
             else num_cos_batches = 0))) \<and>
      e = ZeroDivisionError) \<or>
     (SOLVER_SCHEDULE_TYPE cfg = ''MULTISTEP'' \<and> bidx \<noteq> 0 \<and> param_groups optimizer = [] \<and>
      e = IndexError)"
proof -
  have known: "dataset_size d = None \<longleftrightarrow> d \<noteq> ''imagenet'' \<and> d \<noteq> ''cifar100''" for d
    by (simp add: dataset_size_def)
  show ?thesis
  proof (cases "SOLVER_SCHEDULE_TYPE cfg = ''MULTISTEP''")
    case True
    then show ?thesis
      by (auto simp: adjust_learning_rate_def Let_def split: list.splits)
  next
    case False
    show ?thesis
    proof (cases "SOLVER_SCHEDULE_TYPE cfg = ''COSINE''")
      case c: True
      show ?thesis
      proof (cases "dataset_size (DATASET_TYPE cfg)")
        case None
        with c known [of "DATASET_TYPE cfg"] show ?thesis
          by (auto simp: adjust_learning_rate_def Let_def)
      next
        case (Some n)
        with c known [of "DATASET_TYPE cfg"] show ?thesis
          by (auto simp: adjust_learning_rate_def Let_def)
      qed
    next
      case n: False
      with False show ?thesis
        by (auto simp: adjust_learning_rate_def)
    qed
  qed
qed

theorem adjust_learning_rate_raises_witness:
  "adjust_learning_rate 1 0 (cfg_cosine\<lparr>DATASET_TYPE := ''cifar10''\<rparr>) opt_half = Inl KeyError \<and>
   adjust_learning_rate 1 0 (cfg_cosine\<lparr>SOLVER_SCHEDULE_TYPE := ''STEP''\<rparr>) opt_half =
     Inl NotImplementedError \<and>
   adjust_learning_rate 1 1 cfg_multistep \<lparr>param_groups = ([] :: param_group list)\<rparr> =
     Inl IndexError \<and>
   adjust_learning_rate 101 0 (cfg_cosine\<lparr>SOLVER_SCHEDULE_COSINE_WARMUP := 100\<rparr>) opt_half =
     Inl ZeroDivisionError"
  using adjust_learning_rate_raises
      [of 1 0 "cfg_cosine\<lparr>DATASET_TYPE := ''cifar10''\<rparr>" opt_half KeyError]
    adjust_learning_rate_raises
      [of 1 0 "cfg_cosine\<lparr>SOLVER_SCHEDULE_TYPE := ''STEP''\<rparr>" opt_half NotImplementedError]
    adjust_learning_rate_raises
      [of 1 1 cfg_multistep "\<lparr>param_groups = ([] :: param_group list)\<rparr>" IndexError]
    adjust_learning_rate_raises
      [of 101 0 "cfg_cosine\<lparr>SOLVER_SCHEDULE_COSINE_WARMUP := 100\<rparr>" opt_half ZeroDivisionError]
  by (simp add: example_defs Let_def)

text \<open>
  The claim as first stated allows two errors only. A COSINE configuration on the known
  dataset \<open>cifar100\<close> with batch size 0 raises ZeroDivisionError.
\<close>

theorem adjust_learning_rate_raises_counterexample:
  "SOLVER_SCHEDULE_TYPE (cfg_cosine\<lparr>SOLVER_BATCH_SIZE := 0\<rparr>) = ''COSINE'' \<and>
   DATASET_TYPE (cfg_cosine\<lparr>SOLVER_BATCH_SIZE := 0\<rparr>) = ''cifar100'' \<and>
   adjust_learning_rate 1 0 (cfg_cosine\<lparr>SOLVER_BATCH_SIZE := 0\<rparr>) opt_half =
     Inl ZeroDivisionError"
  by (simp add: adjust_learning_rate_def example_defs Let_def)

subsection \<open>Properties of the top-k accuracy\<close>

lemma accuracy_loop_eq:
  "accuracy_loop correct batch_size ks =
     (if ks = [] then Inr []
      else if batch_size = 0 then Inl ZeroDivisionError
      else Inr (map (\<lambda>k. correct_k correct k * (100 / real batch_size)) ks))"
  by (induction ks) auto

lemma correct_k_mono: "k1 \<le> k2 \<Longrightarrow> correct_k correct k1 \<le> correct_k correct k2"
proof -
  assume "k1 \<le> k2"
  then have "take k2 correct = take k1 correct @ take (k2 - k1) (drop k1 correct)"
    by (metis le_add_diff_inverse take_add)
  then show ?thesis by (simp add: correct_k_def)
qed

lemma accuracy_returns:
  assumes "accuracy output target topk = Inr res"
  obtains correct where "topk \<noteq> []" and "Max (set topk) \<le> ncols output" and "target \<noteq> []"
    and "length target = length (rows output) \<or> length target = 1"
    and "res = map (\<lambda>k. correct_k correct k * (100 / real (length target))) topk"
proof -
  from assms have ne: "topk \<noteq> []"
    by (auto simp: accuracy_def split: if_splits)
  with assms have "\<not> ncols output < Max (set topk)"
    by (auto simp: accuracy_def topk_indices_def Let_def split: if_splits)
  then have le: "Max (set topk) \<le> ncols output"
    by (simp only: not_less)
  define pred where "pred = map (topk_row (Max (set topk))) (rows output)"
  from le have "\<not> ncols output < Max (set topk)"
    by (simp only: not_less)
  then have ti: "topk_indices output (Max (set topk)) = Inr pred"
    by (simp add: topk_indices_def pred_def)
  from assms ne ti obtain target_e where
    te: "expand_as target (Max (set topk)) (length pred) = Inr target_e"
    and loop: "accuracy_loop (eq_t (t_pred (Max (set topk)) pred) target_e) (length target) topk
                 = Inr res"
    by (auto simp: accuracy_def Let_def split: sum.splits)
  from te have shape: "length target = length (rows output) \<or> length target = 1"
    by (auto simp: expand_as_def pred_def split: if_splits)
  from loop ne have "length target \<noteq> 0"
    by (auto simp: accuracy_loop_eq split: if_splits)
  moreover from loop ne have
    "res = map (\<lambda>k. correct_k (eq_t (t_pred (Max (set topk)) pred) target_e) k
                       * (100 / real (length target))) topk"
    by (auto simp: accuracy_loop_eq split: if_splits)
  ultimately show thesis using that ne le shape by auto
qed

lemma accuracy_total:
  assumes "topk \<noteq> []" and "Max (set topk) \<le> ncols output" and "target \<noteq> []"
    and "length (rows output) = length target"
  shows "accuracy output target topk =
           Inr (map (\<lambda>k. correct_k
                            (eq_t (t_pred (Max (set topk))
                                     (map (topk_row (Max (set topk))) (rows output)))
                                  (replicate (Max (set topk)) target)) k
                          * (100 / real (length target))) topk)"
proof -
  from assms(2) have "\<not> ncols output < Max (set topk)"
    by (simp only: not_less)
  with assms(1,3,4) show ?thesis
    by (simp add: accuracy_def topk_indices_def expand_as_def accuracy_loop_eq Let_def)
qed

text \<open>
  C6. Whenever \<open>accuracy\<close> returns, it returns one value per requested \<open>k\<close>, and of two
  requested values \<open>k1 \<le> k2\<close> the accuracy reported for \<open>k2\<close> is at least the one reported
  for \<open>k1\<close>; in particular accuracy@1 is at most accuracy@5, and for a non-empty batch with
  one target per row and at least five classes the call with \<open>topk = (1, 5)\<close> does return.
\<close>

theorem accuracy_monotone_in_k:
  "(accuracy output target topk = Inr res \<longrightarrow>
      length res = length topk \<and>
      (\<forall>i < length topk. \<forall>j < length topk. topk ! i \<le> topk ! j \<longrightarrow> res ! i \<le> res ! j)) \<and>
   (accuracy output target [1, 5] = Inr [acc1, acc5] \<longrightarrow> acc1 \<le> acc5) \<and>
   (target \<noteq> [] \<and> length (rows output) = length target \<and> 5 \<le> ncols output \<longrightarrow>
      (\<exists>a1 a5. accuracy output target [1, 5] = Inr [a1, a5] \<and> a1 \<le> a5))"
proof -
  have mono: "length res = length topk \<and>
      (\<forall>i < length topk. \<forall>j < length topk. topk ! i \<le> topk ! j \<longrightarrow> res ! i \<le> res ! j)"
    if "accuracy output target topk = Inr res" for topk res
  proof -
    from that obtain correct where
      res: "res = map (\<lambda>k. correct_k correct k * (100 / real (length target))) topk"
      by (rule accuracy_returns)
    have "res ! i \<le> res ! j" if "i < length topk" "j < length topk" "topk ! i \<le> topk ! j" for i j
    proof -
      have "0 \<le> 100 / real (length target)" by simp
      from mult_right_mono [OF correct_k_mono [OF that(3)] this] that(1,2)
      show ?thesis by (simp only: res nth_map)
    qed
    with res show ?thesis by simp
  qed
  have pair: "acc1 \<le> acc5" if "accuracy output target [1, 5] = Inr [acc1, acc5]"
    for acc1 acc5
  proof -
    from mono [OF that] have
      "\<forall>i < length [1, 5 :: nat]. \<forall>j < length [1, 5 :: nat].
         [1, 5 :: nat] ! i \<le> [1, 5] ! j \<longrightarrow> [acc1, acc5] ! i \<le> [acc1, acc5] ! j" ..
    from this [rule_format, of 0 1] show ?thesis by simp
  qed
  have returns: "\<exists>a1 a5. accuracy output target [1, 5] = Inr [a1, a5] \<and> a1 \<le> a5"
    if "target \<noteq> [] \<and> length (rows output) = length target \<and> 5 \<le> ncols output"
  proof -
    from that have "Max (set [1, 5 :: nat]) \<le> ncols output" by simp
    from accuracy_total [OF _ this, of target] that obtain a1 a5 where
      "accuracy output target [1, 5] = Inr [a1, a5]" by auto
    with pair show ?thesis by blast
  qed
  from mono pair returns show ?thesis by blast
qed

theorem accuracy_monotone_in_k_witness:
  "accuracy output_ex [2, 0, 3] [1, 5] = Inr [100 / 3, 100] \<and>
   length [100 / 3, 100 :: real] = length [1, 5 :: nat] \<and>
   [100 / 3, 100 :: real] ! 0 \<le> [100 / 3, 100] ! 1"
proof -
  have run: "accuracy output_ex [2, 0, 3] [1, 5] = Inr [100 / 3, 100]"
    by code_simp
  from accuracy_monotone_in_k [of output_ex "[2, 0, 3]" "[1, 5]" "[100 / 3, 100]" "100 / 3" 100] run
  show ?thesis by simp
qed

text \<open>
  C10. \<open>accuracy\<close> returns only for a non-empty target batch and a score matrix of at
  least \<open>max(topk)\<close> classes (and a non-empty \<open>topk\<close>). With an empty batch that gets as far
  as the scaling, \<open>100.0 / batch_size\<close> raises ZeroDivisionError; with fewer classes than
  \<open>max(topk)\<close> the top-k selection raises. Under these conditions and one target per row
  the function does return.
\<close>

theorem accuracy_precondition:
  "(accuracy output target topk = Inr res \<longrightarrow>
      target \<noteq> [] \<and> topk \<noteq> [] \<and> Max (set topk) \<le> ncols output) \<and>
   (target = [] \<longrightarrow> accuracy output target topk \<in> range Inl) \<and>
   (target = [] \<and> rows output = [] \<and> topk \<noteq> [] \<and> Max (set topk) \<le> ncols output \<longrightarrow>
      accuracy output target topk = Inl ZeroDivisionError) \<and>
   (topk \<noteq> [] \<and> ncols output < Max (set topk) \<longrightarrow>
      accuracy output target topk = Inl RuntimeError) \<and>
   (target \<noteq> [] \<and> topk \<noteq> [] \<and> Max (set topk) \<le> ncols output \<and>
    length (rows output) = length target \<longrightarrow>
      accuracy output target topk \<in> range Inr)"
proof -
  have returns: "target \<noteq> [] \<and> topk \<noteq> [] \<and> Max (set topk) \<le> ncols output"
    if "accuracy output target topk = Inr res" for res
    using that by (elim accuracy_returns) (simp only: simp_thms)
  have empty: "accuracy output target topk \<in> range Inl" if e: "target = []"
  proof (cases "accuracy output target topk")
    case (Inl e)
    then show ?thesis by simp
  next
    case (Inr res)
    from returns [OF this] e show ?thesis by simp
  qed
  have scaling: "accuracy output target topk = Inl ZeroDivisionError"
    if "target = [] \<and> rows output = [] \<and> topk \<noteq> [] \<and> Max (set topk) \<le> ncols output"
  proof -
    from that have "\<not> ncols output < Max (set topk)" by (simp only: not_less)
    with that show ?thesis
      by (simp add: accuracy_def topk_indices_def expand_as_def accuracy_loop_eq Let_def)
  qed
  have selection: "accuracy output target topk = Inl RuntimeError"
    if "topk \<noteq> [] \<and> ncols output < Max (set topk)"
    using that by (simp add: accuracy_def topk_indices_def Let_def del: Max_less_iff)
  have total: "accuracy output target topk \<in> range Inr"
    if "target \<noteq> [] \<and> topk \<noteq> [] \<and> Max (set topk) \<le> ncols output \<and>
        length (rows output) = length target"
  proof -
    from that accuracy_total [of topk "output" target] obtain res where
      "accuracy output target topk = Inr res" by blast
    then show ?thesis by (simp only: range_eqI)
  qed
  from returns empty scaling selection total show ?thesis by blast
qed

theorem accuracy_precondition_witness:
  "accuracy output_ex [2, 0, 3] [1, 5] = Inr [100 / 3, 100] \<and>
   [2, 0, 3 :: int] \<noteq> [] \<and> [1, 5 :: nat] \<noteq> [] \<and> Max (set [1, 5 :: nat]) \<le> ncols output_ex \<and>
   length (rows output_ex) = length [2, 0, 3 :: int] \<and>
   accuracy \<lparr>ncols = 5, rows = []\<rparr> [] [1, 5] = Inl ZeroDivisionError \<and>
   accuracy output_ex [2, 0, 3] [1, 6] = Inl RuntimeError"
proof -
  have run: "accuracy output_ex [2, 0, 3] [1, 5] = Inr [100 / 3, 100]"
    by code_simp
  from run accuracy_precondition [of output_ex "[2, 0, 3]" "[1, 5]" "[100 / 3, 100]"]
    accuracy_precondition [of "\<lparr>ncols = 5, rows = []\<rparr>" "[]" "[1, 5]"]
    accuracy_precondition [of output_ex "[2, 0, 3]" "[1, 6]"]
  show ?thesis by (simp add: output_ex_def)
qed

lemma length_filter_concat:
  "length (filter P (concat xss)) = sum_list (map (\<lambda>xs. length (filter P xs)) xss)"
  by (induction xss) simp_all

lemma length_filter_upt: "length (filter id (map f [0..<n])) = card {s. s < n \<and> f s}"
proof -
  have "{i. i < length (map f [0..<n]) \<and> id (map f [0..<n] ! i)} = {s. s < n \<and> f s}"
    by auto
  then show ?thesis by (simp only: length_filter_conv_card)
qed

lemma eq_t_of_pred:
  assumes "length pred = length target"
  shows "eq_t (t_pred m pred) (replicate m target) =
           map (\<lambda>r. map (\<lambda>s. int (pred ! s ! r) = target ! s) [0..<length target]) [0..<m]"
proof -
  have row: "map2 (\<lambda>p t. int p = t) (map (\<lambda>p. p ! r) pred) target =
               map (\<lambda>s. int (pred ! s ! r) = target ! s) [0..<length target]" for r
    using assms by (intro nth_equalityI) simp_all
  have "map2 (\<lambda>ps ts. map2 (\<lambda>p t. int p = t) ps ts)
          (map (\<lambda>r. map (\<lambda>p. p ! r) pred) [0..<m]) (replicate m target) =
        map (\<lambda>r. map2 (\<lambda>p t. int p = t) (map (\<lambda>p. p ! r) pred) target) [0..<m]"
    by (intro nth_equalityI) simp_all
  then show ?thesis
    unfolding eq_t_def t_pred_def by (simp only: row)
qed

lemma correct_k_count:
  assumes len: "length pred = length target" and k: "k \<le> m"
    and dist: "\<And>s. s < length target \<Longrightarrow> distinct (pred ! s) \<and> length (pred ! s) = m"
  shows "correct_k (eq_t (t_pred m pred) (replicate m target)) k =
           real (card {s. s < length target \<and> target ! s \<in> int ` set (take k (pred ! s))})"
proof -
  let ?B = "length target"
  let ?A = "\<lambda>r. {s. s < ?B \<and> int (pred ! s ! r) = target ! s}"
  have "take k (eq_t (t_pred m pred) (replicate m target)) =
          map (\<lambda>r. map (\<lambda>s. int (pred ! s ! r) = target ! s) [0..<?B]) [0..<k]"
    using k by (simp add: eq_t_of_pred [OF len] take_map)
  then have "length (filter id (concat (take k (eq_t (t_pred m pred) (replicate m target))))) =
          sum_list (map (\<lambda>r. card (?A r)) [0..<k])"
    by (simp only: length_filter_concat map_map o_def length_filter_upt)
  also have "\<dots> = (\<Sum>r \<in> {0..<k}. card (?A r))"
    by (simp add: interv_sum_list_conv_sum_set_nat)
  also have "\<dots> = card (\<Union>r \<in> {0..<k}. ?A r)"
  proof (rule card_UN_disjoint [symmetric])
    show "finite {0..<k}" by simp
    show "\<forall>r \<in> {0..<k}. finite (?A r)" by simp
    show "\<forall>r \<in> {0..<k}. \<forall>r' \<in> {0..<k}. r \<noteq> r' \<longrightarrow> ?A r \<inter> ?A r' = {}"
    proof (intro ballI impI)
      fix r r' assume r: "r \<in> {0..<k}" "r' \<in> {0..<k}" "r \<noteq> r'"
      have False if "s < ?B" "int (pred ! s ! r) = target ! s" "int (pred ! s ! r') = target ! s"
        for s
      proof -
        from that have "pred ! s ! r = pred ! s ! r'" by simp
        moreover from dist [OF that(1)] r k have
          "distinct (pred ! s)" "r < length (pred ! s)" "r' < length (pred ! s)" by simp_all
        ultimately have "r = r'" by (simp add: nth_eq_iff_index_eq)
        with r(3) show False by simp
      qed
      then show "?A r \<inter> ?A r' = {}" by blast
    qed
  qed
  also have "(\<Union>r \<in> {0..<k}. ?A r) =
               {s. s < ?B \<and> target ! s \<in> int ` set (take k (pred ! s))}"
  proof -
    have "(\<exists>r < k. int (pred ! s ! r) = target ! s) \<longleftrightarrow>
            target ! s \<in> int ` set (take k (pred ! s))" if "s < ?B" for s
    proof -
      from dist [OF that] k have l: "length (take k (pred ! s)) = k" by simp
      have "set (take k (pred ! s)) = {take k (pred ! s) ! r | r. r < k}"
        unfolding set_conv_nth l ..
      also have "\<dots> = {pred ! s ! r | r. r < k}" by (simp cong: rev_conj_cong)
      finally have "target ! s \<in> int ` set (take k (pred ! s)) \<longleftrightarrow>
                      target ! s \<in> int ` {pred ! s ! r | r. r < k}" by simp
      also have "\<dots> \<longleftrightarrow> (\<exists>r < k. int (pred ! s ! r) = target ! s)"
      proof
        assume "target ! s \<in> int ` {pred ! s ! r | r. r < k}"
        then obtain x where "target ! s = int x" and "x \<in> {pred ! s ! r | r. r < k}" ..
        then obtain r where "r < k" and "x = pred ! s ! r" by blast
        with \<open>target ! s = int x\<close> show "\<exists>r < k. int (pred ! s ! r) = target ! s" by auto
      next
        assume "\<exists>r < k. int (pred ! s ! r) = target ! s"
        then obtain r where r: "r < k" and e: "int (pred ! s ! r) = target ! s" by blast
        from r have "pred ! s ! r \<in> {pred ! s ! r | r. r < k}" by blast
        from imageI [OF this, of int] e
        show "target ! s \<in> int ` {pred ! s ! r | r. r < k}" by simp
      qed
      finally show ?thesis by simp
    qed
    note equiv = this
    show ?thesis
    proof (rule set_eqI)
      fix s
      have "s \<in> (\<Union>r \<in> {0..<k}. ?A r) \<longleftrightarrow>
              s < ?B \<and> (\<exists>r < k. int (pred ! s ! r) = target ! s)" by auto
      also have "\<dots> \<longleftrightarrow> s < ?B \<and> target ! s \<in> int ` set (take k (pred ! s))"
        using equiv [of s] by blast
      finally show "s \<in> (\<Union>r \<in> {0..<k}. ?A r) \<longleftrightarrow>
              s \<in> {s. s < ?B \<and> target ! s \<in> int ` set (take k (pred ! s))}" by simp
    qed
  qed
  finally show ?thesis by (simp only: correct_k_def)
qed


lemma rectangular_row:
  "rectangular output \<Longrightarrow> s < length (rows output) \<Longrightarrow> length (rows output ! s) = ncols output"
  by (simp add: rectangular_def list_all_length)

text \<open>The same with the selection of the library and the rounding of the tensors.\<close>

lemma accuracy_loop_fl_eq:
  "accuracy_loop_fl single double correct batch_size ks =
     (if ks = [] then Inr []
      else if batch_size = 0 then Inl ZeroDivisionError
      else Inr (map (\<lambda>k. single (correct_k correct k * single (double (100 / real batch_size))))
                  ks))"
  by (induction ks) auto

lemma accuracy_fl_exact: "accuracy_fl topk_row (\<lambda>x. x) (\<lambda>x. x) output target topk =
  accuracy output target topk"
proof -
  have "accuracy_loop_fl (\<lambda>x. x) (\<lambda>x. x) = accuracy_loop"
    by (intro ext) (simp add: accuracy_loop_fl_eq accuracy_loop_eq)
  moreover have "topk_indices_lib topk_row = topk_indices"
    by (intro ext) (simp add: topk_indices_lib_def topk_indices_def)
  ultimately show ?thesis by (simp only: accuracy_fl_def accuracy_def)
qed

lemma sort_key_by_score:
  fixes tie :: "nat \<Rightarrow> 'a::linorder" and row :: "real list"
  shows "sorted_wrt (\<lambda>i j. row ! j \<le> row ! i)
           (sort_key (\<lambda>i. (- (row ! i), tie i)) (xs :: nat list))"
proof -
  let ?key = "\<lambda>i::nat. (- (row ! i), tie i)"
  have "sorted (map ?key (sort_key ?key xs))" by (rule sorted_sort_key)
  then have "sorted_wrt (\<lambda>i j. ?key i \<le> ?key j) (sort_key ?key xs)"
    by (simp only: sorted_map)
  then show ?thesis
    by (rule sorted_wrt_mono_rel [rotated]) auto
qed

lemma take_sort_key_contract:
  fixes tie :: "nat \<Rightarrow> 'a::linorder"
  assumes sel: "\<And>k row. sel k row = take k (sort_key (\<lambda>i. (- (row ! i), tie i)) [0..<length row])"
  shows "topk_contract sel"
  unfolding topk_contract_def
proof (intro allI impI)
  fix k and row :: "real list"
  assume k: "k \<le> length row"
  let ?L = "sort_key (\<lambda>i. (- (row ! i), tie i)) [0..<length row]"
  have order: "sorted_wrt (\<lambda>i j. row ! j \<le> row ! i) (take k ?L @ drop k ?L)"
    by (simp only: append_take_drop_id sort_key_by_score)
  have best: "i < length row \<and> (\<forall>j < length row. j \<notin> set (take k ?L) \<longrightarrow> row ! j \<le> row ! i)"
    if i: "i \<in> set (take k ?L)" for i
  proof -
    from i have "i \<in> set ?L" by (rule in_set_takeD)
    then have "i < length row" by simp
    moreover have "row ! j \<le> row ! i" if "j < length row" "j \<notin> set (take k ?L)" for j
    proof -
      from that(1) have "j \<in> set ?L" by simp
      then have "j \<in> set (take k ?L) \<union> set (drop k ?L)"
        by (simp only: set_append [symmetric] append_take_drop_id)
      with that(2) have "j \<in> set (drop k ?L)" by simp
      with order i show ?thesis unfolding sorted_wrt_append by blast
    qed
    ultimately show ?thesis by blast
  qed
  from order have "sorted_wrt (\<lambda>i j. row ! j \<le> row ! i) (take k ?L)"
    unfolding sorted_wrt_append by blast
  moreover from k have "length (take k ?L) = k" by simp
  moreover have "distinct (take k ?L)" by simp
  ultimately show "length (sel k row) = k \<and> distinct (sel k row) \<and>
        sorted_wrt (\<lambda>i j. row ! j \<le> row ! i) (sel k row) \<and>
        (\<forall>i \<in> set (sel k row). i < length row \<and>
           (\<forall>j < length row. j \<notin> set (sel k row) \<longrightarrow> row ! j \<le> row ! i))"
    using best unfolding sel by blast
qed

lemma topk_contract_topk_row: "topk_contract topk_row"
  by (rule take_sort_key_contract [where tie = "\<lambda>i. i"]) (simp add: topk_row_def)

lemma topk_contract_topk_row_last: "topk_contract topk_row_last"
  by (rule take_sort_key_contract [where tie = "\<lambda>i. - int i"]) (simp add: topk_row_last_def)


lemma correct_k_sel:
  assumes sel: "topk_contract sel" and rect: "rectangular output"
    and len: "length (rows output) = length target"
    and m: "m \<le> ncols output" and k: "k \<le> m"
  shows "correct_k (eq_t (t_pred m (map (sel m) (rows output))) (replicate m target)) k =
           real (length (filter (\<lambda>s. target ! s \<in> int ` set (take k (sel m (rows output ! s))))
                           [0..<length target]))"
proof -
  let ?pred = "map (sel m) (rows output)"
  let ?hit = "\<lambda>s. target ! s \<in> int ` set (take k (sel m (rows output ! s)))"
  have shape: "distinct (?pred ! s) \<and> length (?pred ! s) = m" if "s < length target" for s
  proof -
    from that len m rectangular_row [OF rect, of s] have "m \<le> length (rows output ! s)"
      by simp
    with sel have "length (sel m (rows output ! s)) = m \<and> distinct (sel m (rows output ! s))"
      unfolding topk_contract_def by blast
    with that len show ?thesis by simp
  qed
  have "{s. s < length target \<and> target ! s \<in> int ` set (take k (?pred ! s))} =
          {s. s < length target \<and> ?hit s}"
    using len by auto
  also have "\<dots> = {i. i < length [0..<length target] \<and> ?hit ([0..<length target] ! i)}"
    by auto
  finally have "card {s. s < length target \<and> target ! s \<in> int ` set (take k (?pred ! s))} =
          length (filter ?hit [0..<length target])"
    by (simp only: length_filter_conv_card)
  moreover have "length ?pred = length target" using len by simp
  ultimately show ?thesis
    using correct_k_count [of ?pred target k m, OF _ k shape] by simp
qed

lemma accuracy_fl_value:
  assumes "topk_contract sel" and "rectangular output"
    and "length (rows output) = length target" and "target \<noteq> []"
    and "topk \<noteq> []" and "Max (set topk) \<le> ncols output"
  shows "accuracy_fl sel single double output target topk =
           Inr (map (\<lambda>k. single (real (length (filter
                               (\<lambda>s. target ! s \<in> int ` set (take k
                                      (sel (Max (set topk)) (rows output ! s))))
                               [0..<length target]))
                          * single (double (100 / real (length target))))) topk)"
proof -
  let ?m = "Max (set topk)"
  let ?correct = "eq_t (t_pred ?m (map (sel ?m) (rows output))) (replicate ?m target)"
  from assms(6) have "\<not> ncols output < ?m" by (simp only: not_less)
  with assms(3,4,5) have run: "accuracy_fl sel single double output target topk =
      Inr (map (\<lambda>k. single (correct_k ?correct k * single (double (100 / real (length target)))))
             topk)"
    by (simp add: accuracy_fl_def topk_indices_lib_def expand_as_def accuracy_loop_fl_eq Let_def)
  have "map (\<lambda>k. single (correct_k ?correct k * single (double (100 / real (length target)))))
          topk =
        map (\<lambda>k. single (real (length (filter
                               (\<lambda>s. target ! s \<in> int ` set (take k (sel ?m (rows output ! s))))
                               [0..<length target]))
                          * single (double (100 / real (length target))))) topk"
  proof (rule map_cong [OF refl])
    fix k assume "k \<in> set topk"
    then have "k \<le> ?m" by simp
    from correct_k_sel [OF assms(1,2,3,6) this]
    show "single (correct_k ?correct k * single (double (100 / real (length target)))) =
          single (real (length (filter
                               (\<lambda>s. target ! s \<in> int ` set (take k (sel ?m (rows output ! s))))
                               [0..<length target]))
                          * single (double (100 / real (length target))))"
      by (simp only:)
  qed
  with run show ?thesis by (simp only:)
qed

lemma scaled_binary32_bounds:
  assumes "0 < b" and "h \<le> b"
  shows "0 \<le> binary32 (real h * binary32 (binary64 (100 / real b)))"
    and "binary32 (real h * binary32 (binary64 (100 / real b))) \<le> 100 * (1 + 1 / 2 ^ 22)"
proof -
  define s1 where "s1 = binary64 (100 / real b)"
  define s where "s = binary32 s1"
  have q: "0 \<le> 100 / real b" by simp
  have s1: "0 \<le> s1" "s1 \<le> 100 / real b * (1 + 1 / 2 ^ 53)"
    unfolding s1_def binary64_def
    by (rule round_to_nonneg [OF q], rule round_to_upper [OF _ q]) simp
  have s: "0 \<le> s" "s \<le> s1 * (1 + 1 / 2 ^ 24)"
    unfolding s_def binary32_def
    by (rule round_to_nonneg [OF s1(1)], rule round_to_upper [OF _ s1(1)]) simp
  have x: "0 \<le> real h * s" using s(1) by simp
  then show "0 \<le> binary32 (real h * binary32 (binary64 (100 / real b)))"
    unfolding binary32_def s_def [unfolded binary32_def, symmetric] s1_def [symmetric]
    by (rule round_to_nonneg)
  from assms have b: "0 < real b" "real h \<le> real b" by simp_all
  have "binary32 (real h * s) \<le> real h * s * (1 + 1 / 2 ^ 24)"
    unfolding binary32_def by (rule round_to_upper [OF _ x]) simp
  also have "\<dots> \<le> real b * s * (1 + 1 / 2 ^ 24)"
    using b(2) s(1) by (intro mult_right_mono) simp_all
  also have "\<dots> \<le> real b * (s1 * (1 + 1 / 2 ^ 24)) * (1 + 1 / 2 ^ 24)"
    using s(2) b(1) by (intro mult_right_mono mult_left_mono) simp_all
  also have "\<dots> \<le> real b * (100 / real b * (1 + 1 / 2 ^ 53) * (1 + 1 / 2 ^ 24)) * (1 + 1 / 2 ^ 24)"
    using s1(2) b(1) by (intro mult_right_mono mult_left_mono) simp_all
  also have "\<dots> = 100 * ((1 + 1 / 2 ^ 53) * (1 + 1 / 2 ^ 24) * (1 + 1 / 2 ^ 24))"
    using b(1) by simp
  also have "\<dots> \<le> 100 * (1 + 1 / 2 ^ 22)"
    by simp
  finally show "binary32 (real h * binary32 (binary64 (100 / real b))) \<le> 100 * (1 + 1 / 2 ^ 22)"
    by (simp only: s_def s1_def)
qed


text \<open>The roundings of the examples.\<close>

lemma scale_45: "binary32 (binary64 (100 / 45)) = 9320676 / 2 ^ 22"
proof -
  have "pow2 1 \<le> \<bar>100 / 45 :: real\<bar>" "\<bar>100 / 45 :: real\<bar> < pow2 (1 + 1)"
    by (simp_all add: pow2_def)
  from round_to_eval [OF this, of 53]
  have d: "binary64 (100 / 45) = 5003999585967218 / 2 ^ 51"
    by (simp add: binary64_def pow2_def round_even_def Let_def)
  have "pow2 1 \<le> \<bar>5003999585967218 / 2 ^ 51 :: real\<bar>"
    "\<bar>5003999585967218 / 2 ^ 51 :: real\<bar> < pow2 (1 + 1)"
    by (simp_all add: pow2_def)
  from round_to_eval [OF this, of 24]
  have "binary32 (5003999585967218 / 2 ^ 51) = 9320676 / 2 ^ 22"
    by (simp add: binary32_def pow2_def round_even_def Let_def)
  then show ?thesis by (simp only: d)
qed

lemma percentage_45: "binary32 (45 * (9320676 / 2 ^ 22)) = 13107201 / 2 ^ 17"
proof -
  have "pow2 6 \<le> \<bar>45 * (9320676 / 2 ^ 22) :: real\<bar>"
    "\<bar>45 * (9320676 / 2 ^ 22) :: real\<bar> < pow2 (6 + 1)"
    by (simp_all add: pow2_def)
  from round_to_eval [OF this, of 24] show ?thesis
    by (simp add: binary32_def pow2_def round_even_def Let_def)
qed

lemma scale_3: "binary32 (binary64 (100 / 3)) = 8738133 / 2 ^ 18"
proof -
  have "pow2 5 \<le> \<bar>100 / 3 :: real\<bar>" "\<bar>100 / 3 :: real\<bar> < pow2 (5 + 1)"
    by (simp_all add: pow2_def)
  from round_to_eval [OF this, of 53]
  have d: "binary64 (100 / 3) = 4691249611844267 / 2 ^ 47"
    by (simp add: binary64_def pow2_def round_even_def Let_def)
  have "pow2 5 \<le> \<bar>4691249611844267 / 2 ^ 47 :: real\<bar>"
    "\<bar>4691249611844267 / 2 ^ 47 :: real\<bar> < pow2 (5 + 1)"
    by (simp_all add: pow2_def)
  from round_to_eval [OF this, of 24]
  have "binary32 (4691249611844267 / 2 ^ 47) = 8738133 / 2 ^ 18"
    by (simp add: binary32_def pow2_def round_even_def Let_def)
  then show ?thesis by (simp only: d)
qed

lemma percentage_3:
  "binary32 (1 * (8738133 / 2 ^ 18)) = 8738133 / 2 ^ 18"
  "binary32 (3 * (8738133 / 2 ^ 18)) = 100"
proof -
  have "pow2 5 \<le> \<bar>1 * (8738133 / 2 ^ 18) :: real\<bar>"
    "\<bar>1 * (8738133 / 2 ^ 18) :: real\<bar> < pow2 (5 + 1)"
    by (simp_all add: pow2_def)
  from round_to_eval [OF this, of 24] show "binary32 (1 * (8738133 / 2 ^ 18)) = 8738133 / 2 ^ 18"
    by (simp add: binary32_def pow2_def round_even_def Let_def)
  have "pow2 6 \<le> \<bar>3 * (8738133 / 2 ^ 18) :: real\<bar>"
    "\<bar>3 * (8738133 / 2 ^ 18) :: real\<bar> < pow2 (6 + 1)"
    by (simp_all add: pow2_def)
  from round_to_eval [OF this, of 24] show "binary32 (3 * (8738133 / 2 ^ 18)) = 100"
    by (simp add: binary32_def pow2_def round_even_def Let_def)
qed

lemma scale_1: "binary32 (binary64 (100 / 1)) = 100" "binary32 (1 * 100) = 100"
  "binary32 (0 * 100) = 0"
proof -
  have b: "pow2 6 \<le> \<bar>100 :: real\<bar>" "\<bar>100 :: real\<bar> < pow2 (6 + 1)"
    by (simp_all add: pow2_def)
  from round_to_eval [OF b, of 53] have d: "binary64 100 = 100"
    by (simp add: binary64_def pow2_def round_even_def Let_def)
  from round_to_eval [OF b, of 24] have f: "binary32 100 = 100"
    by (simp add: binary32_def pow2_def round_even_def Let_def)
  from d f show "binary32 (binary64 (100 / 1)) = 100" "binary32 (1 * 100) = 100" by simp_all
  show "binary32 (0 * 100) = 0" by (simp add: binary32_def round_to_def)
qed


text \<open>
  C8 (as amended). For a score matrix with one target per row, a non-empty batch of at
  most \<open>2 ^ 24\<close> samples and at most as many requested classes as there are, and for any
  selection that keeps the library's promise: for every sample and every requested \<open>k\<close>
  the \<open>k\<close> selected classes are \<open>k\<close> different classes none of which has a lower score
  than a class left out; which of two classes of equal score is selected is the library's
  choice. \<open>accuracy\<close> returns, for each requested \<open>k\<close> in the order requested, the number
  of samples whose target is among the \<open>k\<close> selected classes, multiplied in binary32 by
  \<open>100 / batch_size\<close>: a percentage that is at least 0 and, by the rounding, at most
  \<open>100 * (1 + 1 / 2 ^ 22)\<close>.
\<close>

theorem accuracy_is_topk_percentage:
  assumes "topk_contract sel" and "rectangular output"
    and "length (rows output) = length target" and "target \<noteq> []"
    and "length target \<le> 2 ^ 24"
    and "topk \<noteq> []" and "Max (set topk) \<le> ncols output"
  shows "accuracy_fl sel binary32 binary64 output target topk =
           Inr (map (\<lambda>k. binary32 (real (length (filter
                               (\<lambda>s. target ! s \<in> int ` set (take k
                                      (sel (Max (set topk)) (rows output ! s))))
                               [0..<length target]))
                          * binary32 (binary64 (100 / real (length target))))) topk) \<and>
         (\<forall>k \<in> set topk. \<forall>s < length target.
            length (take k (sel (Max (set topk)) (rows output ! s))) = k \<and>
            distinct (take k (sel (Max (set topk)) (rows output ! s))) \<and>
            (\<forall>i \<in> set (take k (sel (Max (set topk)) (rows output ! s))). i < ncols output \<and>
               (\<forall>j < ncols output. j \<notin> set (take k (sel (Max (set topk)) (rows output ! s))) \<longrightarrow>
                  rows output ! s ! j \<le> rows output ! s ! i))) \<and>
         (\<forall>res. accuracy_fl sel binary32 binary64 output target topk = Inr res \<longrightarrow>
            length res = length topk \<and>
            (\<forall>a \<in> set res. 0 \<le> a \<and> a \<le> 100 * (1 + 1 / 2 ^ 22)))"
proof -
  let ?m = "Max (set topk)"
  let ?hits = "\<lambda>k. length (filter (\<lambda>s. target ! s \<in> int ` set (take k (sel ?m (rows output ! s))))
                         [0..<length target])"
  let ?pct = "\<lambda>k. binary32 (real (?hits k) * binary32 (binary64 (100 / real (length target))))"
  have run: "accuracy_fl sel binary32 binary64 output target topk = Inr (map ?pct topk)"
    by (rule accuracy_fl_value [OF assms(1,2,3,4,6,7)])
  have chosen: "length (take k (sel ?m (rows output ! s))) = k \<and>
            distinct (take k (sel ?m (rows output ! s))) \<and>
            (\<forall>i \<in> set (take k (sel ?m (rows output ! s))). i < ncols output \<and>
               (\<forall>j < ncols output. j \<notin> set (take k (sel ?m (rows output ! s))) \<longrightarrow>
                  rows output ! s ! j \<le> rows output ! s ! i))"
    if k: "k \<in> set topk" and s: "s < length target" for k s
  proof -
    let ?row = "rows output ! s"
    let ?L = "sel ?m ?row"
    from s assms(3) have n: "length ?row = ncols output"
      by (simp add: rectangular_row [OF assms(2)])
    with assms(7) have "?m \<le> length ?row" by simp
    with assms(1) have L: "length ?L = ?m" "distinct ?L"
      "sorted_wrt (\<lambda>i j. ?row ! j \<le> ?row ! i) ?L"
      "\<And>i. i \<in> set ?L \<Longrightarrow> i < length ?row"
      "\<And>i j. i \<in> set ?L \<Longrightarrow> j < length ?row \<Longrightarrow> j \<notin> set ?L \<Longrightarrow> ?row ! j \<le> ?row ! i"
      unfolding topk_contract_def by blast+
    from k have km: "k \<le> ?m" by simp
    with L(1) have len: "length (take k ?L) = k" by simp
    from L(2) have dist: "distinct (take k ?L)" by simp
    from L(3) have order: "sorted_wrt (\<lambda>i j. ?row ! j \<le> ?row ! i) (take k ?L @ drop k ?L)"
      by (simp only: append_take_drop_id)
    have best: "i < ncols output \<and>
                  (\<forall>j < ncols output. j \<notin> set (take k ?L) \<longrightarrow> ?row ! j \<le> ?row ! i)"
      if i: "i \<in> set (take k ?L)" for i
    proof -
      from i have iL: "i \<in> set ?L" by (rule in_set_takeD)
      have "?row ! j \<le> ?row ! i" if j: "j < ncols output" "j \<notin> set (take k ?L)" for j
      proof (cases "j \<in> set ?L")
        case True
        then have "j \<in> set (take k ?L) \<union> set (drop k ?L)"
          by (simp only: set_append [symmetric] append_take_drop_id)
        with j(2) have "j \<in> set (drop k ?L)" by simp
        with order i show ?thesis unfolding sorted_wrt_append by blast
      next
        case False
        from L(5) [OF iL _ False] j(1) n show ?thesis by simp
      qed
      with L(4) [OF iL] n show ?thesis by simp
    qed
    from len dist best show ?thesis by blast
  qed
  have range: "0 \<le> ?pct k \<and> ?pct k \<le> 100 * (1 + 1 / 2 ^ 22)" for k
  proof -
    have "?hits k \<le> length [0..<length target]" by (rule length_filter_le)
    then have h: "?hits k \<le> length target" by simp
    from assms(4) have b: "0 < length target" by simp
    from scaled_binary32_bounds [OF b h] show ?thesis by blast
  qed
  have bounds: "length res = length topk \<and> (\<forall>a \<in> set res. 0 \<le> a \<and> a \<le> 100 * (1 + 1 / 2 ^ 22))"
    if "accuracy_fl sel binary32 binary64 output target topk = Inr res" for res
  proof -
    from that run have "res = map ?pct topk" by simp
    with range show ?thesis by auto
  qed
  from run chosen bounds show ?thesis by blast
qed

theorem accuracy_is_topk_percentage_witness:
  "topk_contract topk_row \<and> rectangular output_ex \<and>
   length (rows output_ex) = length [2, 0, 3 :: int] \<and> [2, 0, 3 :: int] \<noteq> [] \<and>
   length [2, 0, 3 :: int] \<le> 2 ^ 24 \<and> [1, 5 :: nat] \<noteq> [] \<and>
   Max (set [1, 5 :: nat]) \<le> ncols output_ex \<and>
   accuracy_fl topk_row binary32 binary64 output_ex [2, 0, 3] [1, 5] =
     Inr [8738133 / 2 ^ 18, 100]"
proof -
  have h2: "rectangular output_ex" by (simp add: rectangular_def output_ex_def)
  have h3: "length (rows output_ex) = length [2, 0, 3 :: int]" by (simp add: output_ex_def)
  have h4: "[2, 0, 3 :: int] \<noteq> []" by simp
  have h5: "length [2, 0, 3 :: int] \<le> 2 ^ 24" by simp
  have h6: "[1, 5 :: nat] \<noteq> []" by simp
  have h7: "Max (set [1, 5 :: nat]) \<le> ncols output_ex" by (simp add: output_ex_def)
  have hits:
    "length (filter (\<lambda>s. [2, 0, 3] ! s \<in> int ` set (take 1
                      (topk_row (Max (set [1, 5])) (rows output_ex ! s))))
               [0..<length [2, 0, 3 :: int]]) = 1"
    "length (filter (\<lambda>s. [2, 0, 3] ! s \<in> int ` set (take 5
                      (topk_row (Max (set [1, 5])) (rows output_ex ! s))))
               [0..<length [2, 0, 3 :: int]]) = 3"
    by code_simp+
  have three: "real (length [2, 0, 3 :: int]) = 3" by simp
  from accuracy_is_topk_percentage [OF topk_contract_topk_row h2 h3 h4 h5 h6 h7]
  have "accuracy_fl topk_row binary32 binary64 output_ex [2, 0, 3] [1, 5] =
          Inr [8738133 / 2 ^ 18, 100]"
    by (simp only: list.map hits three scale_3 percentage_3 of_nat_1 of_nat_numeral)
  with topk_contract_topk_row h2 h3 h4 h5 h6 h7 show ?thesis by blast
qed

text \<open>
  The claim as first stated has every result between 0 and 100. For 45 samples, all of
  them right, the result for \<open>k = 1\<close> is \<open>13107201 / 2 ^ 17\<close>, the binary32 number next
  above 100.
\<close>

theorem accuracy_is_topk_percentage_counterexample:
  "topk_contract topk_row \<and> rectangular output_45 \<and>
   length (rows output_45) = length (replicate 45 (0 :: int)) \<and>
   replicate 45 (0 :: int) \<noteq> [] \<and> length (replicate 45 (0 :: int)) \<le> 2 ^ 24 \<and>
   Max (set [1 :: nat]) \<le> ncols output_45 \<and>
   accuracy_fl topk_row binary32 binary64 output_45 (replicate 45 0) [1] =
     Inr [13107201 / 2 ^ 17] \<and>
   (100 :: real) < 13107201 / 2 ^ 17"
proof -
  have h2: "rectangular output_45"
    by (simp add: rectangular_def output_45_def list_all_iff)
  have h3: "length (rows output_45) = length (replicate 45 (0 :: int))"
    by (simp add: output_45_def)
  have h4: "replicate 45 (0 :: int) \<noteq> []" by simp
  have h5: "length (replicate 45 (0 :: int)) \<le> 2 ^ 24" by simp
  have h7: "Max (set [1 :: nat]) \<le> ncols output_45" by (simp add: output_45_def)
  have one: "topk_row (Suc 0) [1] = [0]" by code_simp
  have "\<forall>s \<in> set [0..<length (replicate 45 (0 :: int))].
          replicate 45 (0 :: int) ! s \<in> int ` set (take 1
            (topk_row (Max (set [1])) (rows output_45 ! s)))"
    by (simp add: output_45_def one)
  then have "filter (\<lambda>s. replicate 45 (0 :: int) ! s \<in> int ` set (take 1
                      (topk_row (Max (set [1])) (rows output_45 ! s))))
               [0..<length (replicate 45 (0 :: int))] = [0..<length (replicate 45 (0 :: int))]"
    by (simp only: filter_True)
  then have hits: "length (filter (\<lambda>s. replicate 45 (0 :: int) ! s \<in> int ` set (take 1
                      (topk_row (Max (set [1])) (rows output_45 ! s))))
               [0..<length (replicate 45 (0 :: int))]) = 45"
    by simp
  have b: "real (length (replicate 45 (0 :: int))) = 45" by simp
  from accuracy_fl_value [OF topk_contract_topk_row h2 h3 h4 _ h7, of binary32 binary64]
  have "accuracy_fl topk_row binary32 binary64 output_45 (replicate 45 0) [1] =
          Inr [13107201 / 2 ^ 17]"
    by (simp only: list.map hits b scale_45 percentage_45 of_nat_numeral not_Cons_self2 simp_thms)
  moreover have "(100 :: real) < 13107201 / 2 ^ 17" by simp
  ultimately show ?thesis using topk_contract_topk_row h2 h3 h4 h5 h7 by blast
qed

text \<open>
  The library's promise leaves the results open where scores are equal: on one sample
  with scores 3, 3, 0, 0, 0 and target 0, the selection that takes the lower index first
  reports 100 for \<open>k = 1\<close>, the selection that takes the higher index first reports 0.
\<close>

lemma accuracy_depends_on_tie_order:
  "accuracy_fl topk_row binary32 binary64 output_tie [0] [1] = Inr [100]"
  "accuracy_fl topk_row_last binary32 binary64 output_tie [0] [1] = Inr [0]"
proof -
  have h2: "rectangular output_tie" by (simp add: rectangular_def output_tie_def)
  have h3: "length (rows output_tie) = length [0 :: int]" by (simp add: output_tie_def)
  have h7: "Max (set [1 :: nat]) \<le> ncols output_tie" by (simp add: output_tie_def)
  have hits:
    "length (filter (\<lambda>s. [0] ! s \<in> int ` set (take 1
                      (topk_row (Max (set [1])) (rows output_tie ! s))))
               [0..<length [0 :: int]]) = 1"
    "length (filter (\<lambda>s. [0] ! s \<in> int ` set (take 1
                      (topk_row_last (Max (set [1])) (rows output_tie ! s))))
               [0..<length [0 :: int]]) = 0"
    by code_simp+
  have b: "real (length [0 :: int]) = 1" by simp
  from accuracy_fl_value [OF topk_contract_topk_row h2 h3 _ _ h7, of binary32 binary64]
  show "accuracy_fl topk_row binary32 binary64 output_tie [0] [1] = Inr [100]"
    by (simp only: list.map hits b scale_1 of_nat_1 of_nat_0 not_Cons_self2 simp_thms)
  from accuracy_fl_value [OF topk_contract_topk_row_last h2 h3 _ _ h7, of binary32 binary64]
  show "accuracy_fl topk_row_last binary32 binary64 output_tie [0] [1] = Inr [0]"
    by (simp only: list.map hits b scale_1 of_nat_1 of_nat_0 not_Cons_self2 simp_thms)
qed

text \<open>
  The hypothesis of one target per row matters: a single target is broadcast over all
  rows while the batch size stays 1, and the values are no percentages any more.
\<close>

lemma accuracy_broadcast_example:
  "accuracy output_ex [1] [1, 5, 2, 0] = Inr [100, 300, 200, 0]"
  by code_simp

subsection \<open>Properties of the evaluation loop\<close>

lemma log_msg_EVAL: "\<exists>msg'. log_msg msg ''EVAL'' = Inr msg'"
  by (simp add: log_msg_def color_map_def)

lemma validate_loop_flag:
  assumes "m1\<lparr>pbar := []\<rparr> = m2\<lparr>pbar := []\<rparr>"
  shows "map_sum id (\<lambda>m. m\<lparr>pbar := []\<rparr>) (validate_loop b1 ext idx val_loader m1) =
         map_sum id (\<lambda>m. m\<lparr>pbar := []\<rparr>) (validate_loop b2 ext idx val_loader m2)"
  using assms
proof (induction val_loader arbitrary: idx m1 m2)
  case Nil
  then show ?case by simp
next
  case (Cons b rest)
  obtain img target where b: "b = (img, target)" by (cases b)
  define output_all where "output_all = gather_output ext (distiller ext img)"
  define target_all where "target_all = gather_target ext target"
  from Cons.prems have same:
    "batch_time m1 = batch_time m2" "losses m1 = losses m2"
    "top1 m1 = top1 m2" "top5 m1 = top5 m2"
    by (auto dest: arg_cong [where f = batch_time] arg_cong [where f = losses]
                   arg_cong [where f = top1] arg_cong [where f = top5])
  show ?case
  proof (cases "accuracy output_all target_all [1, 5]")
    case (Inl e)
    then show ?thesis
      by (simp add: b Let_def output_all_def target_all_def)
  next
    case (Inr res)
    show ?thesis
    proof (cases "\<exists>acc1 acc5. res = [acc1, acc5]")
      case False
      then have "(case res of [acc1, acc5] \<Rightarrow> f acc1 acc5 | _ \<Rightarrow> Inl ValueError) = Inl ValueError"
        for f :: "real \<Rightarrow> real \<Rightarrow> py_error + meters"
        by (auto split: list.splits)
      with Inr show ?thesis
        by (simp add: b Let_def output_all_def [symmetric] target_all_def [symmetric])
    next
      case True
      then obtain acc1 acc5 where res: "res = [acc1, acc5]" by blast
      show ?thesis
      proof (cases "update (losses m2) (criterion ext output_all target_all)
                      (real (length target_all))")
        case (Inl e)
        with Inr res same show ?thesis
          by (simp add: b Let_def output_all_def [symmetric] target_all_def [symmetric])
      next
        case l: (Inr losses')
        show ?thesis
        proof (cases "update (top1 m2) acc1 (real (length target_all))")
          case (Inl e)
          with Inr res same l show ?thesis
            by (simp add: b Let_def output_all_def [symmetric] target_all_def [symmetric])
        next
          case t1: (Inr top1')
          show ?thesis
          proof (cases "update (top5 m2) acc5 (real (length target_all))")
            case (Inl e)
            with Inr res same l t1 show ?thesis
              by (simp add: b Let_def output_all_def [symmetric] target_all_def [symmetric])
          next
            case t5: (Inr top5')
            show ?thesis
            proof (cases "update (batch_time m2) (elapsed ext idx) 1")
              case (Inl e)
              with Inr res same l t1 t5 show ?thesis
                by (simp add: b Let_def output_all_def [symmetric] target_all_def [symmetric])
            next
              case bt: (Inr batch_time')
              define n1 where "n1 = m1\<lparr>batch_time := batch_time', losses := losses',
                               top1 := top1', top5 := top5'\<rparr>"
              define n2 where "n2 = m2\<lparr>batch_time := batch_time', losses := losses',
                               top1 := top1', top5 := top5'\<rparr>"
              obtain msg where msg:
                "log_msg (''Top-1:'' @ format_3f ext (avg top1') @ ''| Top-5:''
                            @ format_3f ext (avg top5')) ''EVAL'' = Inr msg"
                using log_msg_EVAL by blast
              define k1 where "k1 = (if b1 then n1\<lparr>pbar := pbar n1 @ [Set_description msg, Update_bar]\<rparr>
                                     else n1)"
              define k2 where "k2 = (if b2 then n2\<lparr>pbar := pbar n2 @ [Set_description msg, Update_bar]\<rparr>
                                     else n2)"
              from Cons.prems have "k1\<lparr>pbar := []\<rparr> = k2\<lparr>pbar := []\<rparr>"
                by (cases m1; cases m2) (simp add: k1_def k2_def n1_def n2_def)
              from Cons.IH [OF this, of "idx + 1"]
              have "map_sum id (\<lambda>m. m\<lparr>pbar := []\<rparr>) (validate_loop b1 ext (idx + 1) rest k1) =
                    map_sum id (\<lambda>m. m\<lparr>pbar := []\<rparr>) (validate_loop b2 ext (idx + 1) rest k2)" .
              moreover have "validate_loop b1 ext idx (b # rest) m1 =
                               validate_loop b1 ext (idx + 1) rest k1"
                using Inr res same l t1 t5 bt msg
                by (simp add: b Let_def output_all_def [symmetric] target_all_def [symmetric]
                      k1_def n1_def)
              moreover have "validate_loop b2 ext idx (b # rest) m2 =
                               validate_loop b2 ext (idx + 1) rest k2"
                using Inr res same l t1 t5 bt msg
                by (simp add: b Let_def output_all_def [symmetric] target_all_def [symmetric]
                      k2_def n2_def)
              ultimately show ?thesis by (simp only:)
            qed
          qed
        qed
      qed
    qed
  qed
qed

lemma validate_loop_not_master:
  "validate_loop False ext idx val_loader m = Inr m' \<Longrightarrow> pbar m' = pbar m"
proof (induction val_loader arbitrary: idx m)
  case Nil
  then show ?case by simp
next
  case (Cons b rest)
  obtain img target where b: "b = (img, target)" by (cases b)
  from Cons.prems obtain m1 where
    "validate_loop False ext (idx + 1) rest m1 = Inr m'" and "pbar m1 = pbar m"
    by (auto simp: b Let_def split: sum.splits list.splits)
  with Cons.IH show ?case by simp
qed

text \<open>
  C7. Two runs of \<open>validate\<close> on the same batches with the same model, gather and
  criterion, one as master and one not, return the same triple (top-1 average, top-5 average,
  loss average), or raise the same error; the run that is not master makes no call on a
  progress bar.
\<close>

theorem validate_metrics_independent_of_role:
  "map_sum id fst (validate True ext val_loader) = map_sum id fst (validate False ext val_loader) \<and>
   map_sum id snd (validate False ext val_loader) \<in> range Inl \<union> {Inr []}"
proof -
  let ?m = "\<lambda>b. \<lparr>batch_time = reset, losses = reset, top1 = reset, top5 = reset,
                pbar = (if b then [Tqdm (length val_loader)] else [])\<rparr>"
  have "(?m True)\<lparr>pbar := []\<rparr> = (?m False)\<lparr>pbar := []\<rparr>" by simp
  from validate_loop_flag [OF this, of True ext 0 val_loader False]
  have loop: "map_sum id (\<lambda>m. m\<lparr>pbar := []\<rparr>) (validate_loop True ext 0 val_loader (?m True)) =
              map_sum id (\<lambda>m. m\<lparr>pbar := []\<rparr>) (validate_loop False ext 0 val_loader (?m False))" .
  have metrics: "map_sum id fst (validate True ext val_loader) =
                 map_sum id fst (validate False ext val_loader)"
  proof (cases "validate_loop True ext 0 val_loader (?m True)")
    case t: (Inl e)
    with loop show ?thesis
      by (cases "validate_loop False ext 0 val_loader (?m False)") (simp_all add: validate_def)
  next
    case t: (Inr mt)
    with loop obtain mf where f: "validate_loop False ext 0 val_loader (?m False) = Inr mf"
      and eq: "mt\<lparr>pbar := []\<rparr> = mf\<lparr>pbar := []\<rparr>"
      by (cases "validate_loop False ext 0 val_loader (?m False)") simp_all
    from eq have "top1 mt = top1 mf" "top5 mt = top5 mf" "losses mt = losses mf"
      by (auto dest: arg_cong [where f = losses]
                   arg_cong [where f = top1] arg_cong [where f = top5])
    with t f show ?thesis by (simp add: validate_def)
  qed
  have quiet: "map_sum id snd (validate False ext val_loader) \<in> range Inl \<union> {Inr []}"
  proof (cases "validate_loop False ext 0 val_loader (?m False)")
    case (Inl e)
    then show ?thesis by (simp add: validate_def)
  next
    case (Inr mf)
    from validate_loop_not_master [OF this] Inr show ?thesis by (simp add: validate_def)
  qed
  from metrics quiet show ?thesis ..
qed

theorem validate_metrics_independent_of_role_witness:
  "map_sum id fst (validate False ext_ex [(output_ex, [2, 0, 3]), (output_ex, [1, 0, 4])]) =
     Inr (200 / 3, 100, 1 / 2) \<and>
   map_sum id fst (validate True ext_ex [(output_ex, [2, 0, 3]), (output_ex, [1, 0, 4])]) =
     Inr (200 / 3, 100, 1 / 2)"
proof -
  have "map_sum id fst (validate False ext_ex [(output_ex, [2, 0, 3]), (output_ex, [1, 0, 4])]) =
     Inr (200 / 3, 100, 1 / 2)"
    by code_simp
  with validate_metrics_independent_of_role
         [of ext_ex "[(output_ex, [2, 0, 3]), (output_ex, [1, 0, 4])]"]
  show ?thesis by simp
qed

subsection \<open>Properties of the checkpoint functions\<close>

lemma save_checkpoint_returns:
  assumes "save_checkpoint lib obj path fs = Inr fs'"
  obtains blob where "can_write fs path" and "torch_save lib obj = Inr blob"
    and "fs' = fs\<lparr>files := (files fs)(path \<mapsto> blob)\<rparr>"
  using assms by (auto simp: save_checkpoint_def split: if_splits sum.splits)

text \<open>
  C9. When \<open>save_checkpoint(state, path)\<close> returns, \<open>load_checkpoint(path)\<close> right after
  it hands \<open>torch.load\<close> exactly the blob that \<open>torch.save\<close> made of the state; so for a
  library whose \<open>load\<close> gives back what its \<open>save\<close> was given, the load returns the state
  saved. Every other file is as it was.
\<close>

theorem load_after_save_checkpoint:
  assumes "save_checkpoint lib state path fs = Inr fs'"
  shows "(\<exists>blob. torch_save lib state = Inr blob \<and> files fs' path = Some blob \<and>
            load_checkpoint lib path fs' = torch_load lib blob) \<and>
         ((\<forall>blob. torch_save lib state = Inr blob \<longrightarrow> torch_load lib blob = Inr state) \<longrightarrow>
            load_checkpoint lib path fs' = Inr state) \<and>
         (\<forall>other. other \<noteq> path \<longrightarrow>
            load_checkpoint lib other fs' = load_checkpoint lib other fs)"
proof -
  from assms obtain blob where
    blob: "torch_save lib state = Inr blob" and fs': "fs' = fs\<lparr>files := (files fs)(path \<mapsto> blob)\<rparr>"
    by (rule save_checkpoint_returns)
  from fs' have stored: "files fs' path = Some blob" by simp
  then have load: "load_checkpoint lib path fs' = torch_load lib blob"
    by (simp add: load_checkpoint_def)
  have others: "load_checkpoint lib other fs' = load_checkpoint lib other fs"
    if "other \<noteq> path" for other
    using that by (simp add: load_checkpoint_def fs')
  from blob stored load others show ?thesis by auto
qed

theorem load_after_save_checkpoint_witness:
  "save_checkpoint lib_ex [1, 2, 3] ''model.pth'' fs_ex =
     Inr (fs_ex\<lparr>files := (files fs_ex)(''model.pth'' \<mapsto> [3, 2, 1])\<rparr>) \<and>
   torch_load lib_ex [3, 2, 1] = Inr [1, 2, 3] \<and>
   load_checkpoint lib_ex ''model.pth''
     (fs_ex\<lparr>files := (files fs_ex)(''model.pth'' \<mapsto> [3, 2, 1])\<rparr>) = Inr [1, 2, 3] \<and>
   load_checkpoint lib_ex ''old.pth''
     (fs_ex\<lparr>files := (files fs_ex)(''model.pth'' \<mapsto> [3, 2, 1])\<rparr>) = Inr [7]"
proof -
  have saved: "save_checkpoint lib_ex [1, 2, 3] ''model.pth'' fs_ex =
     Inr (fs_ex\<lparr>files := (files fs_ex)(''model.pth'' \<mapsto> [3, 2, 1])\<rparr>)"
    by (simp add: save_checkpoint_def lib_ex_def fs_ex_def)
  have old: "load_checkpoint lib_ex ''old.pth'' fs_ex = Inr [7]"
    by (simp add: load_checkpoint_def lib_ex_def fs_ex_def)
  have lib: "torch_load lib_ex [3, 2, 1] = Inr [1, 2, 3]"
    by (simp add: lib_ex_def)
  from load_after_save_checkpoint [OF saved] old lib have
    "load_checkpoint lib_ex ''model.pth''
       (fs_ex\<lparr>files := (files fs_ex)(''model.pth'' \<mapsto> [3, 2, 1])\<rparr>) = Inr [1, 2, 3]"
    "load_checkpoint lib_ex ''old.pth''
       (fs_ex\<lparr>files := (files fs_ex)(''model.pth'' \<mapsto> [3, 2, 1])\<rparr>) = Inr [7]"
    by (auto simp: lib_ex_def)
  with saved lib show ?thesis by simp
qed

end
